theory Spec2Isabelle
  imports Complex_Main "HOL-Library.AList"
begin

section \<open>Python values used by \<^verbatim>\<open>processes/method.py\<close>\<close>

text \<open>
  The exceptions that the modelled code can raise. A computation that may raise
  returns \<open>py_error + 'a\<close>, with \<open>Inl\<close> for the exception.
\<close>

datatype py_error =
  ValueError | IndexError | KeyError | TypeError | ZeroDivisionError
  | FileNotFoundError | RuntimeError

text \<open>\<^verbatim>\<open>xs[i]\<close> on a Python list: a negative index counts from the end, an index out
  of range raises \<^verbatim>\<open>IndexError\<close>.\<close>

definition py_index :: "'a list \<Rightarrow> int \<Rightarrow> py_error + 'a" where
  "py_index xs i =
     (if 0 \<le> i \<and> i < int (length xs) then Inr (xs ! nat i)
      else if i < 0 \<and> - int (length xs) \<le> i then Inr (xs ! nat (int (length xs) + i))
      else Inl IndexError)"

text \<open>\<^verbatim>\<open>[tbl[i] for i in idxs]\<close>: the first failing lookup aborts the comprehension.\<close>

fun lookup_all :: "'a list \<Rightarrow> int list \<Rightarrow> py_error + 'a list" where
  "lookup_all tbl [] = Inr []"
| "lookup_all tbl (i # idxs) =
     (case py_index tbl i of
        Inl e \<Rightarrow> Inl e
      | Inr w \<Rightarrow> (case lookup_all tbl idxs of Inl e \<Rightarrow> Inl e | Inr ws \<Rightarrow> Inr (w # ws)))"

text \<open>\<^verbatim>\<open>xs.index(v)\<close>: the position of the first element equal to \<open>v\<close>, or
  \<^verbatim>\<open>ValueError\<close>.\<close>

fun list_index :: "'a list \<Rightarrow> 'a \<Rightarrow> py_error + nat" where
  "list_index [] v = Inl ValueError"
| "list_index (x # xs) v =
     (if x = v then Inr 0
      else (case list_index xs v of Inl e \<Rightarrow> Inl e | Inr n \<Rightarrow> Inr (Suc n)))"

text \<open>\<^verbatim>\<open>xs[:k]\<close> for an integer \<open>k\<close>: a negative bound drops from the end.\<close>

definition py_slice_to :: "'a list \<Rightarrow> int \<Rightarrow> 'a list" where
  "py_slice_to xs k = (if k < 0 then take (nat (int (length xs) + k)) xs else take (nat k) xs)"

text \<open>\<^verbatim>\<open>sep.join(xs)\<close>.\<close>

fun join :: "string \<Rightarrow> string list \<Rightarrow> string" where
  "join sep [] = []"
| "join sep [x] = x"
| "join sep (x # y # ys) = x @ sep @ join sep (y # ys)"

text \<open>\<^verbatim>\<open>s.split(c)\<close> for a one-character separator: never an empty list.\<close>

fun split :: "char \<Rightarrow> string \<Rightarrow> string list" where
  "split c [] = [[]]"
| "split c (x # xs) =
     (if x = c then [] # split c xs
      else (let r = split c xs in (x # hd r) # tl r))"

text \<open>\<^verbatim>\<open>s.startswith(p)\<close>.\<close>

definition startswith :: "string \<Rightarrow> string \<Rightarrow> bool" where
  "startswith s p = (take (length p) s = p)"

text \<open>\<^verbatim>\<open>s.rfind(c)\<close>: the position of the last occurrence of \<open>c\<close>, or \<open>-1\<close>.\<close>

definition rfind :: "string \<Rightarrow> char \<Rightarrow> int" where
  "rfind s c =
     (if c \<in> set s then int (length (dropWhile (\<lambda>x. x \<noteq> c) (rev s))) - 1 else - 1)"

text \<open>\<^verbatim>\<open>str(n)\<close> for a natural number: its decimal digits.\<close>

definition digit_char :: "nat \<Rightarrow> char" where
  "digit_char d = ''0123456789'' ! d"

fun str_nat :: "nat \<Rightarrow> string" where
  "str_nat n = (if n < 10 then [digit_char n] else str_nat (n div 10) @ [digit_char (n mod 10)])"

declare str_nat.simps [simp del]

text \<open>\<^verbatim>\<open>f'{n:05d}'\<close> for a natural number: the decimal digits, padded on the left
  with zeros to a width of at least five.\<close>

definition fmt_05d :: "nat \<Rightarrow> string" where
  "fmt_05d n = replicate (5 - length (str_nat n)) (CHR ''0'') @ str_nat n"

subsection \<open>Paths\<close>

text \<open>
  A \<^verbatim>\<open>pathlib.Path\<close> is kept as the list of its components. \<^verbatim>\<open>Path.name\<close> is the
  final component (the empty string when there is none); \<^verbatim>\<open>Path.stem\<close> is the name
  without its last suffix, by the rule of the standard library: with \<open>i\<close> the position of
  the last dot of the name, the stem is \<^verbatim>\<open>name[:i]\<close> when \<open>0 < i < len(name) - 1\<close>
  and the whole name otherwise. \<^verbatim>\<open>joinpath\<close> appends a file name as the final component.
\<close>

type_synonym path = "string list"

definition name :: "path \<Rightarrow> string" where
  "name p = (if p = [] then [] else last p)"

definition stem :: "path \<Rightarrow> string" where
  "stem p =
     (let nm = name p; i = rfind nm (CHR ''.'')
      in if 0 < i \<and> i < int (length nm) - 1 then take (nat i) nm else nm)"

definition joinpath :: "path \<Rightarrow> string \<Rightarrow> path" where
  "joinpath d f = d @ [f]"

section \<open>The caption decoder \<^verbatim>\<open>_decode_outputs\<close>\<close>

text \<open>
  A Python \<^verbatim>\<open>dict\<close> from strings to strings is an association list in insertion
  order: \<open>map_of\<close> reads a key, \<open>AList.update\<close> overwrites the value of a key in place or
  appends a new key at the end, as \<^verbatim>\<open>dict.update\<close> does. \<^verbatim>\<open>d[k]\<close> on a missing key
  raises \<^verbatim>\<open>KeyError\<close>.
\<close>

type_synonym py_dict = "(string \<times> string) list"

definition dict_get :: "py_dict \<Rightarrow> string \<Rightarrow> py_error + string" where
  "dict_get d k = (case map_of d k of None \<Rightarrow> Inl KeyError | Some v \<Rightarrow> Inr v)"

text \<open>
  The two loggers of the function are one output stream of entries
  \<open>(is_caption, message)\<close>: \<^verbatim>\<open>caption_logger\<close> writes entries with \<open>True\<close>,
  \<^verbatim>\<open>main_logger\<close> entries with \<open>False\<close>.
\<close>

type_synonym log_entry = "bool \<times> string"

text \<open>The local state of the function: lines 58 to 60, and the log written so far.\<close>

record dec_state =
  captions_pred :: "py_dict list"
  captions_gt :: "py_dict list"
  f_names :: "string list"
  log_out :: "log_entry list"

text \<open>Line 56, and the separator message of lines 63 and 109.\<close>

definition text_sep :: string where
  "text_sep = replicate 100 (CHR ''-'')"

definition sep_message :: string where
  "sep_message =
     text_sep @ [CHR 0x0A] @ text_sep @ [CHR 0x0A] @ text_sep @ [CHR 0x0A, CHR 0x0A]"

text \<open>
  Lines 67 to 76. The tensor operation \<^verbatim>\<open>softmax(b_predictions, dim=-1).argmax(1)\<close>
  of the tensor library is the parameter \<open>amax\<close>: it gives the predicted class index of
  every time step. A ground-truth tensor is the list of its indices. The result is the pair
  of token lists (predicted, ground truth) after truncation. Only \<^verbatim>\<open>ValueError\<close> is
  caught at line 75.
\<close>

definition truncate_predicted :: "string list \<Rightarrow> string \<Rightarrow> py_error + string list" where
  "truncate_predicted predicted_caption eos =
     (case list_index predicted_caption eos of
        Inr j \<Rightarrow> Inr (take j predicted_caption)
      | Inl e \<Rightarrow> (if e = ValueError then Inr predicted_caption else Inl e))"

definition caption_tokens ::
  "('t \<Rightarrow> int list) \<Rightarrow> string list \<Rightarrow> string \<Rightarrow> int list \<Rightarrow> 't
     \<Rightarrow> py_error + (string list \<times> string list)" where
  "caption_tokens amax indices_object eos gt_words b_predictions =
     (let predicted_words = amax b_predictions in
      case lookup_all indices_object predicted_words of
        Inl e \<Rightarrow> Inl e
      | Inr predicted_caption \<Rightarrow>
     (case lookup_all indices_object gt_words of
        Inl e \<Rightarrow> Inl e
      | Inr gt_caption \<Rightarrow>
     (case list_index gt_caption eos of
        Inl e \<Rightarrow> Inl e
      | Inr k \<Rightarrow>
     (case truncate_predicted predicted_caption eos of
        Inl e \<Rightarrow> Inl e
      | Inr predicted_caption' \<Rightarrow> Inr (predicted_caption', take k gt_caption)))))"

text \<open>Line 81: \<^verbatim>\<open>f_n = f_name.stem.split('.')[0]\<close>.\<close>

definition file_key :: "path \<Rightarrow> string" where
  "file_key f_name = hd (split (CHR ''.'') (stem f_name))"

text \<open>
  Lines 92 to 97: the first ground-truth record whose \<^verbatim>\<open>file_name\<close> is \<open>f_n\<close> gets
  the field \<^verbatim>\<open>caption_N\<close>, \<open>N\<close> one more than the number of its keys that start with
  \<^verbatim>\<open>caption_\<close>; the scan stops there.
\<close>

fun add_reference :: "string \<Rightarrow> string \<Rightarrow> py_dict list \<Rightarrow> py_error + py_dict list" where
  "add_reference f_n gt_caption [] = Inr []"
| "add_reference f_n gt_caption (d # ds) =
     (case dict_get d ''file_name'' of
        Inl e \<Rightarrow> Inl e
      | Inr v \<Rightarrow>
          if f_n = v then
            (let len_captions =
                   length (filter (\<lambda>i_c. startswith i_c ''caption_'') (map fst d)) + 1
             in Inr (AList.update (''caption_'' @ str_nat len_captions) gt_caption d # ds))
          else (case add_reference f_n gt_caption ds of
                  Inl e \<Rightarrow> Inl e
                | Inr ds' \<Rightarrow> Inr (d # ds')))"

text \<open>Lines 83 to 97.\<close>

definition record_captions ::
  "string \<Rightarrow> string \<Rightarrow> string \<Rightarrow> dec_state \<Rightarrow> py_error + dec_state" where
  "record_captions f_n predicted_caption gt_caption st =
     (if f_n \<notin> set (f_names st) then
        Inr (st\<lparr>f_names := f_names st @ [f_n],
                captions_pred := captions_pred st @
                  [[(''file_name'', f_n), (''caption_predicted'', predicted_caption)]],
                captions_gt := captions_gt st @
                  [[(''file_name'', f_n), (''caption_1'', gt_caption)]]\<rparr>)
      else (case add_reference f_n gt_caption (captions_gt st) of
              Inl e \<Rightarrow> Inl e
            | Inr cg \<Rightarrow> Inr (st\<lparr>captions_gt := cg\<rparr>)))"

text \<open>Lines 99 to 106.\<close>

definition log_captions :: "bool \<Rightarrow> path \<Rightarrow> string \<Rightarrow> string \<Rightarrow> dec_state \<Rightarrow> dec_state" where
  "log_captions print_to_console f_name predicted_caption gt_caption st =
     (let log_strings =
            [''Captions for file '' @ stem f_name @ '': '',
             [CHR 0x09] @ ''Predicted caption: '' @ predicted_caption,
             [CHR 0x09] @ ''Original caption: '' @ gt_caption @ [CHR 0x0A, CHR 0x0A]]
      in st\<lparr>log_out := log_out st @ map (Pair True) log_strings
                @ (if print_to_console then map (Pair False) log_strings else [])\<rparr>)"

text \<open>Lines 67 to 81: the file key and the two caption strings of one item.\<close>

definition item_captions ::
  "('t \<Rightarrow> int list) \<Rightarrow> string list \<Rightarrow> string \<Rightarrow> int list \<times> 't \<times> path
     \<Rightarrow> py_error + (string \<times> string \<times> string)" where
  "item_captions amax indices_object eos item =
     (case item of (gt_words, b_predictions, f_name) \<Rightarrow>
      (case caption_tokens amax indices_object eos gt_words b_predictions of
         Inl e \<Rightarrow> Inl e
       | Inr (predicted_tokens, gt_tokens) \<Rightarrow>
           (let predicted_caption = join '' '' predicted_tokens;
                gt_caption = join '' '' gt_tokens;
                f_n = file_key f_name
            in Inr (f_n, predicted_caption, gt_caption))))"

text \<open>Lines 67 to 106: the body of the loop, for one item of the zipped inputs.\<close>

definition decode_item ::
  "('t \<Rightarrow> int list) \<Rightarrow> string list \<Rightarrow> string \<Rightarrow> bool \<Rightarrow> dec_state
     \<Rightarrow> int list \<times> 't \<times> path \<Rightarrow> py_error + dec_state" where
  "decode_item amax indices_object eos print_to_console st item =
     (case item_captions amax indices_object eos item of
        Inl e \<Rightarrow> Inl e
      | Inr (f_n, predicted_caption, gt_caption) \<Rightarrow>
          (case record_captions f_n predicted_caption gt_caption st of
             Inl e \<Rightarrow> Inl e
           | Inr st' \<Rightarrow>
               Inr (log_captions print_to_console (snd (snd item)) predicted_caption
                      gt_caption st')))"

text \<open>Lines 65 and 66: the loop, left at the first exception.\<close>

fun decode_loop ::
  "('t \<Rightarrow> int list) \<Rightarrow> string list \<Rightarrow> string \<Rightarrow> bool \<Rightarrow> dec_state
     \<Rightarrow> (int list \<times> 't \<times> path) list \<Rightarrow> py_error + dec_state" where
  "decode_loop amax indices_object eos print_to_console st [] = Inr st"
| "decode_loop amax indices_object eos print_to_console st (item # items) =
     (case decode_item amax indices_object eos print_to_console st item of
        Inl e \<Rightarrow> Inl e
      | Inr st' \<Rightarrow> decode_loop amax indices_object eos print_to_console st' items)"

text \<open>
  The whole function, lines 52 to 113. \<^verbatim>\<open>zip\<close> of the three inputs stops at the
  shortest one. The result is the returned pair and, as a third component, the log written.
\<close>

definition decode_outputs ::
  "('t \<Rightarrow> int list) \<Rightarrow> 't list \<Rightarrow> int list list \<Rightarrow> string list \<Rightarrow> path list \<Rightarrow> string
     \<Rightarrow> bool \<Rightarrow> py_error + (py_dict list \<times> py_dict list \<times> log_entry list)" where
  "decode_outputs amax predicted_outputs ground_truth_outputs indices_object file_names eos
       print_to_console =
     (let st0 = \<lparr>captions_pred = [], captions_gt = [], f_names = [],
                 log_out = [(True, ''Captions start''), (False, ''Starting decoding of captions'')]
                   @ (if print_to_console then [(False, sep_message)] else [])\<rparr>
      in case decode_loop amax indices_object eos print_to_console st0
                (zip ground_truth_outputs (zip predicted_outputs file_names)) of
           Inl e \<Rightarrow> Inl e
         | Inr st \<Rightarrow>
             Inr (captions_pred st, captions_gt st,
                  log_out st @ (if print_to_console then [(False, sep_message)] else [])
                    @ [(False, ''Decoding of captions ended'')]))"

section \<open>The training orchestrator \<^verbatim>\<open>_do_training\<close>\<close>

text \<open>
  The keys of \<^verbatim>\<open>settings['training']\<close> and \<^verbatim>\<open>settings['data']\<close> that the function
  reads itself. The learning rate and the gradient-norm settings are only handed on to the
  optimizer and to the epoch runner. A loss is a value of any type \<open>'l\<close> with a subtraction
  and an order, so that nothing below depends on how floating-point numbers round.
\<close>

record 'l settings =
  nb_epochs :: int
  patience :: int
  loss_thr :: 'l
  text_output_every_nb_epochs :: int
  nb_examples_to_sample :: int
  eos_token :: string

text \<open>
  The collaborators that are not in this file. \<open>module_epoch_passing\<close> is one pass over the
  training data (the data loader is part of it): from the parameter states of the model and of
  the optimizer it gives the mean loss of the pass, the predicted outputs, the ground-truth
  outputs and the file names, and the two states after the pass. \<open>new_optimizer\<close> is
  \<^verbatim>\<open>Adam(params=model.parameters(), lr=...)\<close>; \<open>randperm e n\<close> is the permutation of
  \<open>0 .. n - 1\<close> that \<^verbatim>\<open>randperm(n)\<close> draws in epoch \<open>e\<close>; \<open>argmax_softmax\<close> is the
  tensor operation of line 67.
\<close>

record ('m, 'o, 't, 'l) collaborators =
  module_epoch_passing :: "'m \<Rightarrow> 'o \<Rightarrow> ('l \<times> 't list \<times> int list list \<times> path list) \<times> 'm \<times> 'o"
  new_optimizer :: "'m \<Rightarrow> 'o"
  randperm :: "nat \<Rightarrow> nat \<Rightarrow> nat list"
  argmax_softmax :: "'t \<Rightarrow> int list"

text \<open>
  What \<^verbatim>\<open>pt_save\<close> writes and \<^verbatim>\<open>pt_load\<close> reads: the \<^verbatim>\<open>state_dict\<close> of the model or
  of the optimizer. The effects of the function are kept in order in a trace: the messages
  of \<^verbatim>\<open>logger_main\<close> (the epoch line with its epoch and loss, the stop notice with the
  patience counter it prints, the other messages as text), the log of a call of the caption
  decoder, and the files written.
\<close>

datatype ('m, 'o) state_dict = ModelState 'm | OptimizerState 'o

datatype ('m, 'o, 'l) event =
    Info string
  | EpochInfo nat 'l
  | StopInfo int
  | CaptionLog "log_entry list"
  | Saved path "('m, 'o) state_dict"

text \<open>Lines 191 to 195, the model, the optimizer, the files of the disk and the trace.\<close>

record ('m, 'o, 'l) train_state =
  prv_training_loss :: 'l
  patience_counter :: int
  best_epoch :: nat
  model :: 'm
  optimizer :: 'o
  files :: "path \<Rightarrow> ('m, 'o) state_dict option"
  trace :: "('m, 'o, 'l) event list"

definition pt_save ::
  "('m, 'o) state_dict \<Rightarrow> path \<Rightarrow> ('m, 'o, 'l) train_state \<Rightarrow> ('m, 'o, 'l) train_state" where
  "pt_save obj p st = st\<lparr>files := (files st)(p \<mapsto> obj), trace := trace st @ [Saved p obj]\<rparr>"

text \<open>The file name of lines 268 and 292: \<^verbatim>\<open>f'epoch_{best_epoch:05d}_{model_file_name}'\<close>.\<close>

definition epoch_file :: "path \<Rightarrow> string \<Rightarrow> nat \<Rightarrow> path" where
  "epoch_file model_dir model_file_name e =
     joinpath model_dir (''epoch_'' @ fmt_05d e @ ''_'' @ model_file_name)"

text \<open>The file name of line 280: \<^verbatim>\<open>f'latest{save_str}_{model_file_name}'\<close>.\<close>

definition latest_file :: "path \<Rightarrow> string \<Rightarrow> string \<Rightarrow> path" where
  "latest_file model_dir model_file_name save_str =
     joinpath model_dir (''latest'' @ save_str @ ''_'' @ model_file_name)"

text \<open>
  Lines 247 to 257. The three list comprehensions raise \<^verbatim>\<open>IndexError\<close> at an index out
  of range; with no sampled index the call of the decoder has no positional argument and
  raises \<^verbatim>\<open>TypeError\<close>. The result is the log of the decoder, its return value is dropped.
\<close>

definition sample_and_decode ::
  "('m, 'o, 't, 'l) collaborators \<Rightarrow> 'l settings \<Rightarrow> string list \<Rightarrow> nat
     \<Rightarrow> 't list \<Rightarrow> int list list \<Rightarrow> path list \<Rightarrow> py_error + log_entry list" where
  "sample_and_decode env cfg indices_list epoch output_y_hat output_y fnames =
     (let sampling_indices =
            sort (py_slice_to (randperm env epoch (length output_y_hat))
                    (nb_examples_to_sample cfg))
      in case lookup_all output_y_hat (map int sampling_indices) of
           Inl e \<Rightarrow> Inl e
         | Inr y_hats \<Rightarrow>
        (case lookup_all output_y (map int sampling_indices) of
           Inl e \<Rightarrow> Inl e
         | Inr ys \<Rightarrow>
        (case lookup_all fnames (map int sampling_indices) of
           Inl e \<Rightarrow> Inl e
         | Inr file_names \<Rightarrow>
             if sampling_indices = [] then Inl TypeError
             else (case decode_outputs (argmax_softmax env) y_hats ys indices_list file_names
                          (eos_token cfg) False of
                     Inl e \<Rightarrow> Inl e
                   | Inr (cp, cg, lg) \<Rightarrow> Inr lg))))"

text \<open>Lines 259 to 276.\<close>

definition check_improvement ::
  "'l settings \<Rightarrow> string \<Rightarrow> path \<Rightarrow> nat \<Rightarrow> 'l \<Rightarrow> ('m, 'o, 'l) train_state
     \<Rightarrow> ('m, 'o, 'l :: {minus, ord}) train_state" where
  "check_improvement cfg model_file_name model_dir epoch training_loss st =
     (if loss_thr cfg < prv_training_loss st - training_loss then
        (pt_save (ModelState (model st)) (epoch_file model_dir model_file_name epoch)
           (st\<lparr>prv_training_loss := training_loss, best_epoch := epoch\<rparr>))
          \<lparr>patience_counter := 0\<rparr>
      else st\<lparr>patience_counter := patience_counter st + 1\<rparr>)"

text \<open>Lines 278 to 280.\<close>

definition save_latest ::
  "string \<Rightarrow> path \<Rightarrow> ('m, 'o, 'l) train_state \<Rightarrow> ('m, 'o, 'l) train_state" where
  "save_latest model_file_name model_dir st =
     pt_save (OptimizerState (optimizer st)) (latest_file model_dir model_file_name ''_optimizer'')
       (pt_save (ModelState (model st)) (latest_file model_dir model_file_name '''') st)"

text \<open>Lines 282 to 286. Nothing leaves the loop here.\<close>

definition check_stopping ::
  "'l settings \<Rightarrow> ('m, 'o, 'l) train_state \<Rightarrow> ('m, 'o, 'l) train_state" where
  "check_stopping cfg st =
     (if patience cfg \<le> patience_counter st
      then st\<lparr>trace := trace st @ [StopInfo (patience_counter st)]\<rparr>
      else st)"

text \<open>
  Lines 223 to 286: one epoch. \<^verbatim>\<open>divmod\<close> by zero raises \<^verbatim>\<open>ZeroDivisionError\<close>; an
  exception of the decoder leaves the function.
\<close>

definition epoch_body ::
  "('m, 'o, 't, 'l) collaborators \<Rightarrow> 'l settings \<Rightarrow> string \<Rightarrow> path \<Rightarrow> string list \<Rightarrow> nat
     \<Rightarrow> ('m, 'o, 'l) train_state \<Rightarrow> py_error + ('m, 'o, 'l :: {minus, ord}) train_state" where
  "epoch_body env cfg model_file_name model_dir indices_list epoch st =
     (case module_epoch_passing env (model st) (optimizer st) of
        ((training_loss, output_y_hat, output_y, fnames), m', o') \<Rightarrow>
          (let st1 = st\<lparr>model := m', optimizer := o',
                       trace := trace st @ [EpochInfo epoch training_loss]\<rparr>
           in if text_output_every_nb_epochs cfg = 0 then Inl ZeroDivisionError
              else
                (case (if (int epoch + 1) mod text_output_every_nb_epochs cfg = 0
                       then (case sample_and_decode env cfg indices_list epoch output_y_hat
                                    output_y fnames of
                               Inl e \<Rightarrow> Inl e
                             | Inr lg \<Rightarrow> Inr (st1\<lparr>trace := trace st1 @ [CaptionLog lg]\<rparr>))
                       else Inr st1) of
                   Inl e \<Rightarrow> Inl e
                 | Inr st2 \<Rightarrow>
                     Inr (check_stopping cfg
                            (save_latest model_file_name model_dir
                               (check_improvement cfg model_file_name model_dir epoch
                                  training_loss st2))))))"

text \<open>Line 221: the loop over \<^verbatim>\<open>range(nb_epochs)\<close>; the body has no \<^verbatim>\<open>break\<close>.\<close>

fun epoch_loop ::
  "('m, 'o, 't, 'l) collaborators \<Rightarrow> 'l settings \<Rightarrow> string \<Rightarrow> path \<Rightarrow> string list
     \<Rightarrow> ('m, 'o, 'l) train_state \<Rightarrow> nat list
     \<Rightarrow> py_error + ('m, 'o, 'l :: {minus, ord}) train_state" where
  "epoch_loop env cfg model_file_name model_dir indices_list st [] = Inr st"
| "epoch_loop env cfg model_file_name model_dir indices_list st (epoch # epochs) =
     (case epoch_body env cfg model_file_name model_dir indices_list epoch st of
        Inl e \<Rightarrow> Inl e
      | Inr st' \<Rightarrow> epoch_loop env cfg model_file_name model_dir indices_list st' epochs)"

text \<open>
  Lines 191 to 220: the state before the first epoch. The batch counter and the training
  mode set on the model at lines 208 and 220 are not part of the state.
\<close>

definition initial_state ::
  "('m, 'o, 't, 'l) collaborators \<Rightarrow> 'm \<Rightarrow> (path \<Rightarrow> ('m, 'o) state_dict option)
     \<Rightarrow> ('m, 'o, 'l :: numeral) train_state" where
  "initial_state env model0 files0 =
     \<lparr>prv_training_loss = 100000000, patience_counter = 0, best_epoch = 0,
      model = model0, optimizer = new_optimizer env model0, files = files0,
      trace = [Info ''Getting training data'', Info ''Done'', Info ''Starting training'']\<rparr>"

text \<open>
  The whole function. \<^verbatim>\<open>pt_load\<close> of a missing file raises \<^verbatim>\<open>FileNotFoundError\<close>;
  \<^verbatim>\<open>load_state_dict\<close> of something that is not a state of the model raises
  \<^verbatim>\<open>RuntimeError\<close>.
\<close>

definition do_training ::
  "('m, 'o, 't, 'l) collaborators \<Rightarrow> 'l settings \<Rightarrow> string \<Rightarrow> path \<Rightarrow> string list \<Rightarrow> 'm
     \<Rightarrow> (path \<Rightarrow> ('m, 'o) state_dict option)
     \<Rightarrow> py_error + ('m, 'o, 'l :: {numeral, minus, ord}) train_state" where
  "do_training env cfg model_file_name model_dir indices_list model0 files0 =
     (case epoch_loop env cfg model_file_name model_dir indices_list
             (initial_state env model0 files0) [0..<nat (nb_epochs cfg)] of
        Inl e \<Rightarrow> Inl e
      | Inr st \<Rightarrow>
          (let st' = st\<lparr>trace := trace st @ [Info ''Training done'']\<rparr>
           in case files st' (epoch_file model_dir model_file_name (best_epoch st')) of
                None \<Rightarrow> Inl FileNotFoundError
              | Some (ModelState m) \<Rightarrow> Inr (st'\<lparr>model := m\<rparr>)
              | Some (OptimizerState x) \<Rightarrow> Inl RuntimeError))"

text \<open>
  A run used as an example: the model state counts the passes done, pass number \<open>m\<close> has
  the loss \<open>losses ! m\<close> and no outputs, and no epoch decodes captions.
\<close>

definition example_env :: "real list \<Rightarrow> (nat, unit, int list, real) collaborators" where
  "example_env losses =
     \<lparr>module_epoch_passing = (\<lambda>m opt. ((losses ! m, [], [], []), Suc m, opt)),
      new_optimizer = (\<lambda>m. ()),
      randperm = (\<lambda>e n. [0..<n]),
      argmax_softmax = (\<lambda>x. x)\<rparr>"

definition example_cfg :: "int \<Rightarrow> int \<Rightarrow> real \<Rightarrow> real settings" where
  "example_cfg n p thr =
     \<lparr>nb_epochs = n, patience = p, loss_thr = thr, text_output_every_nb_epochs = 1000,
      nb_examples_to_sample = 1, eos_token = ''<eos>''\<rparr>"

text \<open>
  A model directory that holds a file of epoch 0 before the run starts, left there by an
  earlier run whose model had the state 42.
\<close>

definition stale_files :: "path \<Rightarrow> (nat, unit) state_dict option" where
  "stale_files = [epoch_file [''out''] ''m.pt'' 0 \<mapsto> ModelState 42]"

section \<open>Notions used to state the properties\<close>

text \<open>
  These definitions are not part of the program. \<open>first_appearance\<close> keeps the first
  occurrence of every element of a list, in order. For a list \<open>ds\<close> of decoded items
  \<open>(file key, predicted caption, ground-truth caption)\<close>, \<open>preds_of ds k\<close> and
  \<open>refs_of ds k\<close> are the predicted and the ground-truth captions of the items with key
  \<open>k\<close>, in input order; \<open>spec_pred_record\<close> and \<open>spec_gt_record\<close> are the records the
  specification expects for a key; \<open>dec_inv\<close> is the loop invariant of the decoder and
  \<open>dec_core\<close> the part of its state that is returned.
\<close>

fun first_appearance :: "'a list \<Rightarrow> 'a list" where
  "first_appearance [] = []"
| "first_appearance (k # ks) = k # filter (\<lambda>x. x \<noteq> k) (first_appearance ks)"

definition dec_core :: "dec_state \<Rightarrow> py_dict list \<times> py_dict list \<times> string list" where
  "dec_core st = (captions_pred st, captions_gt st, f_names st)"

definition numbered :: "string list \<Rightarrow> py_dict" where
  "numbered cs = map (\<lambda>j. (''caption_'' @ str_nat (Suc j), cs ! j)) [0..<length cs]"

definition preds_of :: "(string \<times> string \<times> string) list \<Rightarrow> string \<Rightarrow> string list" where
  "preds_of ds k = map (\<lambda>d. fst (snd d)) (filter (\<lambda>d. fst d = k) ds)"

definition refs_of :: "(string \<times> string \<times> string) list \<Rightarrow> string \<Rightarrow> string list" where
  "refs_of ds k = map (\<lambda>d. snd (snd d)) (filter (\<lambda>d. fst d = k) ds)"

definition spec_pred_record :: "(string \<times> string \<times> string) list \<Rightarrow> string \<Rightarrow> py_dict" where
  "spec_pred_record ds k = [(''file_name'', k), (''caption_predicted'', hd (preds_of ds k))]"

definition spec_gt_record :: "(string \<times> string \<times> string) list \<Rightarrow> string \<Rightarrow> py_dict" where
  "spec_gt_record ds k = (''file_name'', k) # numbered (refs_of ds k)"

definition dec_inv :: "(string \<times> string \<times> string) list \<Rightarrow> dec_state \<Rightarrow> bool" where
  "dec_inv ds st \<longleftrightarrow>
     f_names st = first_appearance (map fst ds)
     \<and> captions_pred st = map (spec_pred_record ds) (f_names st)
     \<and> captions_gt st = map (spec_gt_record ds) (f_names st)"


text \<open>
  For the training loop: \<open>epoch_loss env st\<close> is the mean loss of the pass that starts in
  state \<open>st\<close>, and \<open>saves\<close> lists the files written in a trace, in order.
\<close>

definition epoch_loss :: "('m, 'o, 't, 'l) collaborators \<Rightarrow> ('m, 'o, 'l) train_state \<Rightarrow> 'l" where
  "epoch_loss env st = fst (fst (module_epoch_passing env (model st) (optimizer st)))"

fun saves :: "('m, 'o, 'l) event list \<Rightarrow> (path \<times> ('m, 'o) state_dict) list" where
  "saves [] = []"
| "saves (Saved p obj # evs) = (p, obj) # saves evs"
| "saves (ev # evs) = saves evs"

text \<open>The epochs whose pass was run and logged in a trace, in order.\<close>

fun epochs_run :: "('m, 'o, 'l) event list \<Rightarrow> nat list" where
  "epochs_run [] = []"
| "epochs_run (EpochInfo e l # evs) = e # epochs_run evs"
| "epochs_run (ev # evs) = epochs_run evs"

text \<open>
  Reading a decimal numeral back: \<open>digit_value\<close> is the value of a digit character and
  \<open>decimal_value\<close> the number that a string of digits denotes, leading zeros allowed.
\<close>

definition digit_value :: "char \<Rightarrow> nat" where
  "digit_value c = of_char c - 48"

definition decimal_value :: "string \<Rightarrow> nat" where
  "decimal_value s = foldl (\<lambda>a c. 10 * a + digit_value c) 0 s"

section \<open>Properties\<close>

subsection \<open>Strings and paths\<close>

lemma split_nonempty: "split c s \<noteq> []"
  by (induction s) (auto simp: Let_def)

lemma hd_split: "hd (split c s) = takeWhile (\<lambda>x. x \<noteq> c) s"
  by (induction s) (auto simp: Let_def)

lemma takeWhile_stop: "\<not> P c \<Longrightarrow> takeWhile P (pre @ c # post) = takeWhile P pre"
  by (induction pre) auto

lemma dropWhile_rev_last:
  "c \<notin> set post \<Longrightarrow> dropWhile (\<lambda>x. x \<noteq> c) (rev (pre @ c # post)) = c # rev pre"
  by (induction post rule: rev_induct) auto

lemma takeWhile_take_last_dot:
  assumes "c \<in> set s"
  shows "takeWhile (\<lambda>x. x \<noteq> c) (take (length (dropWhile (\<lambda>x. x \<noteq> c) (rev s)) - 1) s)
         = takeWhile (\<lambda>x. x \<noteq> c) s"
proof -
  from assms obtain pre post where s: "s = pre @ c # post" and post: "c \<notin> set post"
    by (meson split_list_last)
  have "length (dropWhile (\<lambda>x. x \<noteq> c) (rev s)) - 1 = length pre"
    unfolding s by (simp only: dropWhile_rev_last [OF post] length_Cons length_rev diff_Suc_1)
  moreover have "take (length pre) s = pre"
    unfolding s by simp
  moreover have "takeWhile (\<lambda>x. x \<noteq> c) s = takeWhile (\<lambda>x. x \<noteq> c) pre"
    unfolding s by (rule takeWhile_stop) simp
  ultimately show ?thesis
    by (simp only:)
qed

text \<open>
  C9. The file key of a path is its base name (final component) cut at the first dot:
  \<^verbatim>\<open>foo.bar.wav\<close> gives \<^verbatim>\<open>foo\<close>, and a base name without a dot is the key itself.
\<close>

theorem file_key_is_name_upto_first_dot:
  "file_key f_name = takeWhile (\<lambda>x. x \<noteq> CHR ''.'') (name f_name)
   \<and> file_key [''clotho'', ''foo.bar.wav''] = ''foo''
   \<and> file_key [''clotho'', ''clip''] = ''clip''"
proof -
  have gen: "file_key p = takeWhile (\<lambda>x. x \<noteq> CHR ''.'') (name p)" for p
  proof (cases "CHR ''.'' \<in> set (name p)")
    case True
    then show ?thesis
      using takeWhile_take_last_dot [OF True]
      by (auto simp: file_key_def stem_def rfind_def hd_split Let_def nat_diff_distrib)
  next
    case False
    then show ?thesis
      by (simp add: file_key_def stem_def rfind_def hd_split Let_def)
  qed
  show ?thesis
    by (simp add: gen name_def)
qed


lemma str_nat_nonempty: "str_nat n \<noteq> []"
  by (subst str_nat.simps) simp

lemma digit_char_inj:
  assumes "a < 10" "b < 10" "digit_char a = digit_char b"
  shows "a = b"
proof -
  have en: "n < 10 \<Longrightarrow> n \<in> {0, 1, 2, 3, 4, 5, 6, 7, 8, 9}" for n :: nat
    by auto
  from en [OF assms(1)] en [OF assms(2)] assms(3) show ?thesis
    by (auto simp: digit_char_def)
qed

lemma str_nat_inj: "str_nat a = str_nat b \<Longrightarrow> a = b"
proof (induction a arbitrary: b rule: less_induct)
  case (less a)
  show ?case
  proof (cases "a < 10")
    case a: True
    show ?thesis
    proof (cases "b < 10")
      case True
      with a less.prems show ?thesis
        by (simp add: str_nat.simps [of a] str_nat.simps [of b] digit_char_inj)
    next
      case False
      with a less.prems str_nat_nonempty [of "b div 10"] show ?thesis
        by (simp add: str_nat.simps [of a] str_nat.simps [of b])
    qed
  next
    case a: False
    show ?thesis
    proof (cases "b < 10")
      case True
      with a less.prems str_nat_nonempty [of "a div 10"] show ?thesis
        by (simp add: str_nat.simps [of a] str_nat.simps [of b])
    next
      case False
      with a less.prems have e: "str_nat (a div 10) = str_nat (b div 10)"
        and d: "digit_char (a mod 10) = digit_char (b mod 10)"
        by (simp_all add: str_nat.simps [of a] str_nat.simps [of b])
      from a have "a div 10 < a" by simp
      from less.IH [OF this e] have "a div 10 = b div 10" .
      moreover from d have "a mod 10 = b mod 10"
        by (simp add: digit_char_inj)
      ultimately show ?thesis
        by (metis div_mult_mod_eq)
    qed
  qed
qed

lemma list_index_mem:
  "v \<in> set xs \<Longrightarrow> list_index xs v = Inr (length (takeWhile (\<lambda>x. x \<noteq> v) xs))"
  by (induction xs) auto

lemma list_index_notmem: "v \<notin> set xs \<Longrightarrow> list_index xs v = Inl ValueError"
  by (induction xs) auto

lemma takeWhile_absent: "c \<notin> set xs \<Longrightarrow> takeWhile (\<lambda>x. x \<noteq> c) xs = xs"
  by (induction xs) auto

lemma truncate_predicted_eq:
  "truncate_predicted pc eos = Inr (takeWhile (\<lambda>x. x \<noteq> eos) pc)"
proof (cases "eos \<in> set pc")
  case True
  then show ?thesis
    by (simp add: truncate_predicted_def list_index_mem [OF True] takeWhile_eq_take [symmetric])
next
  case False
  then show ?thesis
    by (simp add: truncate_predicted_def list_index_notmem [OF False] takeWhile_absent)
qed

text \<open>The decimal rendering read back, and the zero-padded format of the epoch number.\<close>

lemma digit_cases: "n < 10 \<Longrightarrow> n \<in> {0, 1, 2, 3, 4, 5, 6, 7, 8, 9}" for n :: nat
  by auto

lemma digit_value_digit_char: "n < 10 \<Longrightarrow> digit_value (digit_char n) = n"
  using digit_cases [of n] by (auto simp: digit_value_def digit_char_def)

lemma digit_char_is_digit: "n < 10 \<Longrightarrow> digit_char n \<in> set ''0123456789''"
  using digit_cases [of n] by (auto simp: digit_char_def)

lemma digit_char_zero: "n < 10 \<Longrightarrow> digit_char n = CHR ''0'' \<longleftrightarrow> n = 0"
  using digit_cases [of n] by (auto simp: digit_char_def)

lemma decimal_value_snoc: "decimal_value (s @ [c]) = 10 * decimal_value s + digit_value c"
  by (simp add: decimal_value_def)

lemma decimal_value_zeros: "decimal_value (replicate k (CHR ''0'') @ s) = decimal_value s"
proof -
  have "foldl (\<lambda>a c. 10 * a + digit_value c) 0 (replicate k (CHR ''0'')) = 0"
    by (induction k) (simp_all add: digit_value_def)
  then show ?thesis
    by (simp add: decimal_value_def)
qed

lemma decimal_value_str_nat: "decimal_value (str_nat n) = n"
proof (induction n rule: str_nat.induct)
  case (1 n)
  show ?case
  proof (cases "n < 10")
    case True
    then show ?thesis
      by (simp add: str_nat.simps [of n] decimal_value_def digit_value_digit_char)
  next
    case False
    with 1 have "decimal_value (str_nat (n div 10)) = n div 10" by simp
    with False show ?thesis
      by (simp add: str_nat.simps [of n] decimal_value_snoc digit_value_digit_char)
  qed
qed

lemma str_nat_digits: "set (str_nat n) \<subseteq> set ''0123456789''"
proof (induction n rule: str_nat.induct)
  case (1 n)
  show ?case
  proof (cases "n < 10")
    case True
    then show ?thesis
      using digit_char_is_digit [of n] by (simp add: str_nat.simps [of n])
  next
    case False
    with 1 have "set (str_nat (n div 10)) \<subseteq> set ''0123456789''" by simp
    with False show ?thesis
      using digit_char_is_digit [of "n mod 10"] by (simp add: str_nat.simps [of n])
  qed
qed

lemma str_nat_no_leading_zero: "0 < n \<Longrightarrow> hd (str_nat n) \<noteq> CHR ''0''"
proof (induction n rule: str_nat.induct)
  case (1 n)
  show ?case
  proof (cases "n < 10")
    case True
    with "1.prems" show ?thesis
      by (simp add: str_nat.simps [of n] digit_char_zero)
  next
    case False
    then have "0 < n div 10" by simp
    with 1 False have "hd (str_nat (n div 10)) \<noteq> CHR ''0''" by simp
    with False show ?thesis
      by (simp add: str_nat.simps [of n] hd_append str_nat_nonempty)
  qed
qed

lemma length_str_nat_le: "n < 10 ^ Suc k \<Longrightarrow> length (str_nat n) \<le> Suc k"
proof (induction k arbitrary: n)
  case 0
  then show ?case by (simp add: str_nat.simps [of n])
next
  case (Suc k)
  show ?case
  proof (cases "n < 10")
    case True
    then show ?thesis by (simp add: str_nat.simps [of n])
  next
    case False
    from Suc.prems have "n div 10 < 10 ^ Suc k" by (simp add: div_less_iff_less_mult mult.commute)
    from Suc.IH [OF this] False show ?thesis
      by (simp add: str_nat.simps [of n])
  qed
qed

lemma fmt_05d_zero_padded:
  "set (fmt_05d n) \<subseteq> set ''0123456789''"
  "decimal_value (fmt_05d n) = n"
  "5 \<le> length (fmt_05d n)"
  "n < 100000 \<Longrightarrow> length (fmt_05d n) = 5"
  "5 < length (fmt_05d n) \<Longrightarrow> hd (fmt_05d n) \<noteq> CHR ''0''"
proof -
  show "set (fmt_05d n) \<subseteq> set ''0123456789''"
    using str_nat_digits [of n] by (auto simp: fmt_05d_def)
  show "decimal_value (fmt_05d n) = n"
    by (simp add: fmt_05d_def decimal_value_zeros decimal_value_str_nat)
  show "5 \<le> length (fmt_05d n)"
    by (simp add: fmt_05d_def)
  show "length (fmt_05d n) = 5" if "n < 100000"
  proof -
    from that have "n < 10 ^ Suc 4" by simp
    from length_str_nat_le [OF this] show ?thesis
      by (simp add: fmt_05d_def)
  qed
  show "hd (fmt_05d n) \<noteq> CHR ''0''" if "5 < length (fmt_05d n)"
  proof -
    from that have l: "5 < length (str_nat n)"
      by (simp add: fmt_05d_def split: if_splits)
    then have f: "fmt_05d n = str_nat n" by (simp add: fmt_05d_def)
    have "0 < n"
    proof (rule ccontr)
      assume "\<not> 0 < n"
      then have "n = 0" by simp
      with l show False by (simp add: str_nat.simps [of 0])
    qed
    from str_nat_no_leading_zero [OF this] f show ?thesis by simp
  qed
qed

subsection \<open>The decoder loop\<close>

lemma set_first_appearance: "set (first_appearance ks) = set ks"
  by (induction ks) auto

lemma distinct_first_appearance: "distinct (first_appearance ks)"
  by (induction ks) (auto simp: set_first_appearance)

lemma first_appearance_snoc:
  "first_appearance (ks @ [k]) =
     (if k \<in> set ks then first_appearance ks else first_appearance ks @ [k])"
  by (induction ks) auto

lemma length_first_appearance: "length (first_appearance ks) = card (set ks)"
  using distinct_card [OF distinct_first_appearance, of ks] by (simp add: set_first_appearance)

lemma numbered_snoc:
  "numbered (cs @ [g]) = numbered cs @ [(''caption_'' @ str_nat (Suc (length cs)), g)]"
  by (simp add: numbered_def nth_append)

lemma keys_numbered:
  "map fst (numbered cs) = map (\<lambda>j. ''caption_'' @ str_nat (Suc j)) [0..<length cs]"
  by (simp add: numbered_def comp_def)

lemma count_caption_keys:
  "length (filter (\<lambda>i_c. startswith i_c ''caption_'') (map fst (spec_gt_record ds k)))
     = length (refs_of ds k)"
proof -
  have f: "filter (\<lambda>i_c. startswith i_c ''caption_'') (map fst (numbered cs)) = map fst (numbered cs)"
    for cs
    by (simp add: keys_numbered startswith_def filter_map comp_def)
  have n: "\<not> startswith ''file_name'' ''caption_''"
    by (simp add: startswith_def)
  have "map fst (spec_gt_record ds k) = ''file_name'' # map fst (numbered (refs_of ds k))"
    by (simp add: spec_gt_record_def)
  then show ?thesis
    by (simp only: filter.simps n if_False f length_map) (simp add: numbered_def)
qed

lemma update_fresh: "k \<notin> fst ` set al \<Longrightarrow> AList.update k v al = al @ [(k, v)]"
  by (induction al) auto

lemma fresh_caption_key:
  "''caption_'' @ str_nat (Suc (length cs)) \<notin> fst ` set (spec_gt_record ds k)" 
  if "cs = refs_of ds k"
proof -
  have "''caption_'' @ str_nat (Suc (length cs)) \<notin> set (map fst (numbered cs))"
    unfolding keys_numbered by (auto dest: str_nat_inj)
  then show ?thesis
    using that by (simp add: spec_gt_record_def)
qed

lemma refs_of_snoc:
  "refs_of (ds @ [(k, p, g)]) k' = (if k' = k then refs_of ds k' @ [g] else refs_of ds k')"
  by (auto simp: refs_of_def)

lemma preds_of_snoc:
  "preds_of (ds @ [(k, p, g)]) k' = (if k' = k then preds_of ds k' @ [p] else preds_of ds k')"
  by (auto simp: preds_of_def)

lemma preds_of_nonempty: "k \<in> fst ` set ds \<Longrightarrow> preds_of ds k \<noteq> []"
  by (auto simp: preds_of_def filter_empty_conv)

lemma preds_of_empty: "k \<notin> fst ` set ds \<Longrightarrow> preds_of ds k = []"
  by (auto simp: preds_of_def filter_empty_conv)

lemma refs_of_empty: "k \<notin> fst ` set ds \<Longrightarrow> refs_of ds k = []"
  by (auto simp: refs_of_def filter_empty_conv)

lemma spec_pred_record_snoc:
  "k' \<in> fst ` set ds \<Longrightarrow> spec_pred_record (ds @ [(k, p, g)]) k' = spec_pred_record ds k'"
  using preds_of_nonempty [of k' ds] by (auto simp: spec_pred_record_def preds_of_snoc)

lemma spec_gt_record_snoc_other:
  "k' \<noteq> k \<Longrightarrow> spec_gt_record (ds @ [(k, p, g)]) k' = spec_gt_record ds k'"
  by (simp add: spec_gt_record_def refs_of_snoc)

lemma spec_gt_record_snoc_same:
  "spec_gt_record (ds @ [(k, p, g)]) k =
     AList.update (''caption_'' @ str_nat (length (filter (\<lambda>i_c. startswith i_c ''caption_'')
        (map fst (spec_gt_record ds k))) + 1)) g (spec_gt_record ds k)"
proof -
  have "AList.update (''caption_'' @ str_nat (Suc (length (refs_of ds k)))) g (spec_gt_record ds k)
        = spec_gt_record ds k @ [(''caption_'' @ str_nat (Suc (length (refs_of ds k))), g)]"
    by (rule update_fresh) (rule fresh_caption_key, rule refl)
  then show ?thesis
    by (simp only: count_caption_keys Suc_eq_plus1 [symmetric])
       (simp add: spec_gt_record_def refs_of_snoc numbered_snoc)
qed

lemma dict_get_file_name: "dict_get (spec_gt_record ds k) ''file_name'' = Inr k"
  by (simp add: dict_get_def spec_gt_record_def)

lemma add_reference_spec:
  "distinct ks \<Longrightarrow>
   add_reference k g (map (spec_gt_record ds) ks) = Inr (map (spec_gt_record (ds @ [(k, p, g)])) ks)"
proof (induction ks)
  case Nil
  then show ?case by simp
next
  case (Cons k' ks)
  show ?case
  proof (cases "k = k'")
    case True
    with Cons.prems have "k \<notin> set ks" by simp
    then have "map (spec_gt_record (ds @ [(k, p, g)])) ks = map (spec_gt_record ds) ks"
      by (intro map_cong refl spec_gt_record_snoc_other) auto
    with True show ?thesis
      by (simp add: dict_get_file_name spec_gt_record_snoc_same Let_def del: AList.update.simps)
  next
    case False
    with Cons show ?thesis
      by (simp add: dict_get_file_name spec_gt_record_snoc_other)
  qed
qed


lemma record_captions_inv:
  assumes "dec_inv ds st"
  shows "\<exists>st'. record_captions k p g st = Inr st' \<and> dec_inv (ds @ [(k, p, g)]) st'
            \<and> log_out st' = log_out st"
proof (cases "k \<in> set (f_names st)")
  case True
  from assms have fn: "f_names st = first_appearance (map fst ds)"
    and cp: "captions_pred st = map (spec_pred_record ds) (f_names st)"
    and cg: "captions_gt st = map (spec_gt_record ds) (f_names st)"
    by (simp_all add: dec_inv_def)
  from True fn have kin: "k \<in> fst ` set ds"
    by (simp add: set_first_appearance)
  have dist: "distinct (f_names st)"
    by (simp add: fn distinct_first_appearance)
  have ar: "add_reference k g (captions_gt st)
            = Inr (map (spec_gt_record (ds @ [(k, p, g)])) (f_names st))"
    unfolding cg by (rule add_reference_spec [OF dist])
  have "map (spec_pred_record (ds @ [(k, p, g)])) (f_names st)
        = map (spec_pred_record ds) (f_names st)"
    by (intro map_cong refl spec_pred_record_snoc) (simp add: fn set_first_appearance)
  with True kin ar show ?thesis
    by (simp add: record_captions_def dec_inv_def fn cp first_appearance_snoc)
next
  case False
  from assms have fn: "f_names st = first_appearance (map fst ds)"
    and cp: "captions_pred st = map (spec_pred_record ds) (f_names st)"
    and cg: "captions_gt st = map (spec_gt_record ds) (f_names st)"
    by (simp_all add: dec_inv_def)
  from False fn have knot: "k \<notin> fst ` set ds"
    by (simp add: set_first_appearance)
  have p1: "map (spec_pred_record (ds @ [(k, p, g)])) (f_names st)
        = map (spec_pred_record ds) (f_names st)"
    by (intro map_cong refl spec_pred_record_snoc) (simp add: fn set_first_appearance)
  have g1: "map (spec_gt_record (ds @ [(k, p, g)])) (f_names st)
        = map (spec_gt_record ds) (f_names st)"
    using False by (intro map_cong refl spec_gt_record_snoc_other) auto
  have p2: "spec_pred_record (ds @ [(k, p, g)]) k = [(''file_name'', k), (''caption_predicted'', p)]"
    by (simp add: spec_pred_record_def preds_of_snoc preds_of_empty [OF knot])
  have one: "str_nat (Suc 0) = ''1''"
    by (simp add: str_nat.simps digit_char_def)
  have g2: "spec_gt_record (ds @ [(k, p, g)]) k = [(''file_name'', k), (''caption_1'', g)]"
    by (simp add: spec_gt_record_def refs_of_snoc refs_of_empty [OF knot] numbered_def one)
  from False knot show ?thesis
    by (simp add: record_captions_def dec_inv_def fn [symmetric] cp cg first_appearance_snoc
        p1 g1 p2 g2)
qed

lemma decode_item_inv:
  assumes "dec_inv ds st"
  shows "decode_item amax io eos pr st item =
           (case item_captions amax io eos item of Inl e \<Rightarrow> Inl e
            | Inr d \<Rightarrow> decode_item amax io eos pr st item)"
    and "item_captions amax io eos item = Inr d \<Longrightarrow>
           \<exists>st'. decode_item amax io eos pr st item = Inr st' \<and> dec_inv (ds @ [d]) st'"
proof -
  show "decode_item amax io eos pr st item =
           (case item_captions amax io eos item of Inl e \<Rightarrow> Inl e
            | Inr d \<Rightarrow> decode_item amax io eos pr st item)"
    by (simp add: decode_item_def split: sum.splits)
next
  assume d: "item_captions amax io eos item = Inr d"
  obtain k p g where dd: "d = (k, p, g)" by (cases d) auto
  from record_captions_inv [OF assms, of k p g] obtain st'
    where r: "record_captions k p g st = Inr st'" and i: "dec_inv (ds @ [(k, p, g)]) st'"
    by blast
  have "dec_inv (ds @ [(k, p, g)]) (log_captions pr (snd (snd item)) p g st')"
    using i by (simp add: dec_inv_def log_captions_def Let_def)
  then show "\<exists>st'. decode_item amax io eos pr st item = Inr st' \<and> dec_inv (ds @ [d]) st'"
    by (simp add: decode_item_def d dd r)
qed

lemma decode_loop_inv:
  assumes "dec_inv ds0 st0"
    and "decode_loop amax io eos pr st0 items = Inr st"
  shows "\<exists>ds. map (item_captions amax io eos) items = map Inr ds \<and> dec_inv (ds0 @ ds) st"
  using assms
proof (induction items arbitrary: ds0 st0)
  case Nil
  then show ?case by simp
next
  case (Cons item items)
  from Cons.prems(2) obtain d where d: "item_captions amax io eos item = Inr d"
    by (auto simp: decode_item_def split: sum.splits)
  from decode_item_inv(2) [OF Cons.prems(1) d] obtain st1
    where s1: "decode_item amax io eos pr st0 item = Inr st1" and i1: "dec_inv (ds0 @ [d]) st1"
    by blast
  from Cons.prems(2) s1 have "decode_loop amax io eos pr st1 items = Inr st"
    by simp
  from Cons.IH [OF i1 this] obtain ds
    where "map (item_captions amax io eos) items = map Inr ds" and "dec_inv ((ds0 @ [d]) @ ds) st"
    by blast
  then have "map (item_captions amax io eos) (item # items) = map Inr (d # ds)
             \<and> dec_inv (ds0 @ (d # ds)) st"
    using d by simp
  then show ?case by blast
qed

lemma decode_loop_total:
  assumes "dec_inv ds0 st0"
    and "map (item_captions amax io eos) items = map Inr ds"
  shows "\<exists>st. decode_loop amax io eos pr st0 items = Inr st"
  using assms
proof (induction items arbitrary: ds0 st0 ds)
  case Nil
  then show ?case by simp
next
  case (Cons item items)
  from Cons.prems(2) obtain d ds' where dd: "ds = d # ds'"
    and d: "item_captions amax io eos item = Inr d"
    and r: "map (item_captions amax io eos) items = map Inr ds'"
    by (cases ds) auto
  from decode_item_inv(2) [OF Cons.prems(1) d] obtain st1
    where s1: "decode_item amax io eos pr st0 item = Inr st1" and i1: "dec_inv (ds0 @ [d]) st1"
    by blast
  from Cons.IH [OF i1 r] s1 show ?case
    by simp
qed


lemma dec_inv_init:
  "dec_inv [] \<lparr>captions_pred = [], captions_gt = [], f_names = [], log_out = l\<rparr>"
  by (simp add: dec_inv_def)

lemma decode_loop_append:
  "decode_loop amax io eos pr st (xs @ ys) =
     (case decode_loop amax io eos pr st xs of
        Inl e \<Rightarrow> Inl e
      | Inr st' \<Rightarrow> decode_loop amax io eos pr st' ys)"
  by (induction xs arbitrary: st) (auto split: sum.splits)

lemma item_captions_key:
  "item_captions amax io eos item = Inr d \<Longrightarrow> fst d = file_key (snd (snd item))"
  by (auto simp: item_captions_def Let_def split: sum.splits prod.splits)

lemma item_keys:
  assumes "map (item_captions amax io eos) items = map Inr ds"
  shows "map fst ds = map (\<lambda>item. file_key (snd (snd item))) items"
proof (rule nth_equalityI)
  from assms have l: "length items = length ds"
    by (metis length_map)
  then show "length (map fst ds) = length (map (\<lambda>item. file_key (snd (snd item))) items)"
    by simp
  fix i assume "i < length (map fst ds)"
  then have i: "i < length ds" by simp
  with l assms have "item_captions amax io eos (items ! i) = Inr (ds ! i)"
    by (metis nth_map)
  from item_captions_key [OF this] i l
  show "map fst ds ! i = map (\<lambda>item. file_key (snd (snd item))) items ! i"
    by simp
qed

lemma decode_outputs_inv:
  assumes "decode_outputs amax preds gts io fnames eos pr = Inr (cp, cg, lg)"
  shows "\<exists>ds. map (item_captions amax io eos) (zip gts (zip preds fnames)) = map Inr ds
           \<and> cp = map (spec_pred_record ds) (first_appearance (map fst ds))
           \<and> cg = map (spec_gt_record ds) (first_appearance (map fst ds))"
proof -
  define st0 where "st0 = \<lparr>captions_pred = [], captions_gt = [], f_names = [],
      log_out = [(True, ''Captions start''), (False, ''Starting decoding of captions'')]
                   @ (if pr then [(False, sep_message)] else [])\<rparr>"
  from assms obtain st where
    l: "decode_loop amax io eos pr st0 (zip gts (zip preds fnames)) = Inr st"
    and c: "cp = captions_pred st" "cg = captions_gt st"
    by (auto simp: decode_outputs_def st0_def Let_def split: sum.splits)
  have "dec_inv [] st0"
    unfolding st0_def by (rule dec_inv_init)
  from decode_loop_inv [OF this l] obtain ds
    where "map (item_captions amax io eos) (zip gts (zip preds fnames)) = map Inr ds"
      and "dec_inv ds st"
    by auto
  then show ?thesis
    using c by (auto simp: dec_inv_def)
qed

lemma caption_tokens_eq:
  assumes "lookup_all io (amax b) = Inr pm" and "lookup_all io gw = Inr gm"
  shows "caption_tokens amax io eos gw b =
           (if eos \<in> set gm
            then Inr (takeWhile (\<lambda>x. x \<noteq> eos) pm, takeWhile (\<lambda>x. x \<noteq> eos) gm)
            else Inl ValueError)"
proof (cases "eos \<in> set gm")
  case True
  then show ?thesis
    by (simp add: caption_tokens_def assms list_index_mem [OF True] truncate_predicted_eq
        takeWhile_eq_take [symmetric])
next
  case False
  then show ?thesis
    by (simp add: caption_tokens_def assms list_index_notmem [OF False])
qed

lemma caption_tokens_Inr:
  assumes "caption_tokens amax io eos gw b = Inr (pt, gt)"
  shows "\<exists>pm gm. lookup_all io (amax b) = Inr pm \<and> lookup_all io gw = Inr gm \<and> eos \<in> set gm
           \<and> pt = takeWhile (\<lambda>x. x \<noteq> eos) pm \<and> gt = takeWhile (\<lambda>x. x \<noteq> eos) gm"
proof -
  from assms obtain pm where pm: "lookup_all io (amax b) = Inr pm"
    by (auto simp: caption_tokens_def Let_def split: sum.splits)
  from assms pm obtain gm where gm: "lookup_all io gw = Inr gm"
    by (auto simp: caption_tokens_def Let_def split: sum.splits)
  from assms show ?thesis
    unfolding caption_tokens_eq [where amax = amax and b = b, OF pm gm] using pm gm
    by (auto split: if_splits)
qed

lemma takeWhile_first_position:
  assumes "c \<in> set xs"
  shows "\<exists>k. k < length xs \<and> xs ! k = c \<and> (\<forall>j<k. xs ! j \<noteq> c)
            \<and> takeWhile (\<lambda>x. x \<noteq> c) xs = take k xs"
proof -
  from assms obtain ys zs where xs: "xs = ys @ c # zs" and ys: "c \<notin> set ys"
    by (meson split_list_first)
  have "takeWhile (\<lambda>x. x \<noteq> c) xs = take (length ys) xs"
    unfolding xs using ys by (simp add: takeWhile_tail takeWhile_absent)
  moreover have "\<forall>j<length ys. xs ! j \<noteq> c"
    unfolding xs using ys by (auto simp: nth_append)
  moreover have "length ys < length xs" "xs ! length ys = c"
    unfolding xs by simp_all
  ultimately show ?thesis by blast
qed


lemma record_captions_core:
  assumes "dec_core st = dec_core st'"
  shows "map_sum id dec_core (record_captions k p g st)
         = map_sum id dec_core (record_captions k p g st')"
  using assms by (auto simp: record_captions_def dec_core_def split: sum.splits)

lemma decode_item_core:
  assumes "dec_core st = dec_core st'"
  shows "map_sum id dec_core (decode_item amax io eos pr st item)
         = map_sum id dec_core (decode_item amax io eos pr' st' item)"
proof (cases "item_captions amax io eos item")
  case (Inl e)
  then show ?thesis by (simp add: decode_item_def)
next
  case (Inr d)
  obtain k p g where d: "d = (k, p, g)" by (cases d) auto
  have lc: "dec_core (log_captions q f p g s) = dec_core s" for q f s
    by (simp add: dec_core_def log_captions_def Let_def)
  from record_captions_core [OF assms, of k p g] show ?thesis
    by (cases "record_captions k p g st"; cases "record_captions k p g st'")
       (simp_all add: decode_item_def Inr d lc)
qed

lemma decode_loop_core:
  assumes "dec_core st = dec_core st'"
  shows "map_sum id dec_core (decode_loop amax io eos pr st items)
         = map_sum id dec_core (decode_loop amax io eos pr' st' items)"
  using assms
proof (induction items arbitrary: st st')
  case Nil
  then show ?case by simp
next
  case (Cons item items)
  from decode_item_core [OF Cons.prems, of amax io eos pr item pr'] Cons.IH show ?case
    by (cases "decode_item amax io eos pr st item"; cases "decode_item amax io eos pr' st' item")
       simp_all
qed

lemma decode_outputs_print_irrelevant:
  "map_sum id (\<lambda>r. (fst r, fst (snd r))) (decode_outputs amax preds gts io fnames eos pr)
   = map_sum id (\<lambda>r. (fst r, fst (snd r))) (decode_outputs amax preds gts io fnames eos pr')"
proof -
  let ?st = "\<lambda>q. \<lparr>captions_pred = [], captions_gt = [], f_names = [],
      log_out = [(True, ''Captions start''), (False, ''Starting decoding of captions'')]
                   @ (if q then [(False, sep_message)] else [])\<rparr>"
  have "dec_core (?st pr) = dec_core (?st pr')"
    by (simp add: dec_core_def)
  from decode_loop_core [OF this, of amax io eos pr "zip gts (zip preds fnames)" pr']
  show ?thesis
    by (cases "decode_loop amax io eos pr (?st pr) (zip gts (zip preds fnames))";
        cases "decode_loop amax io eos pr' (?st pr') (zip gts (zip preds fnames))")
       (simp_all add: decode_outputs_def Let_def dec_core_def)
qed

lemma file_names_of_records:
  "map (\<lambda>d. dict_get d ''file_name'') (map (spec_pred_record ds) ks) = map Inr ks"
  "map (\<lambda>d. dict_get d ''file_name'') (map (spec_gt_record ds) ks) = map Inr ks"
  by (simp_all add: dict_get_def spec_pred_record_def spec_gt_record_def)

lemma zip3_take:
  "zip (take i gts) (zip (take i preds) (take i fnames)) = take i (zip gts (zip preds fnames))"
  by (simp add: take_zip)

lemma zip3_nth:
  "i < length gts \<Longrightarrow> i < length preds \<Longrightarrow> i < length fnames \<Longrightarrow>
   zip gts (zip preds fnames) ! i = (gts ! i, preds ! i, fnames ! i)"
  by simp

subsection \<open>Claims about the decoder\<close>

text \<open>
  C5. Whenever the captions of an item are produced, with \<open>gm\<close> and \<open>pm\<close> the
  ground-truth and predicted index sequences mapped to tokens: the ground-truth token list is
  \<open>gm\<close> cut at the first position of the end-of-sequence token, so it holds neither that
  token nor any token at or after that position; the predicted token list never holds the
  end-of-sequence token, it is \<open>pm\<close> cut at the first position of the token when the token
  occurs, and the whole of \<open>pm\<close> only when the token does not occur in it. The caption strings
  of the item are these token lists joined by a space.
\<close>

theorem caption_tokens_truncation:
  assumes "caption_tokens amax io eos gw b = Inr (pt, gt)"
  shows "\<exists>pm gm. lookup_all io (amax b) = Inr pm \<and> lookup_all io gw = Inr gm
           \<and> eos \<notin> set gt
           \<and> (\<exists>k<length gm. gm ! k = eos \<and> (\<forall>j<k. gm ! j \<noteq> eos) \<and> gt = take k gm)
           \<and> eos \<notin> set pt
           \<and> (eos \<in> set pm \<longrightarrow>
                (\<exists>k<length pm. pm ! k = eos \<and> (\<forall>j<k. pm ! j \<noteq> eos) \<and> pt = take k pm))
           \<and> (eos \<notin> set pm \<longrightarrow> pt = pm)
           \<and> item_captions amax io eos (gw, b, f)
               = Inr (file_key f, join '' '' pt, join '' '' gt)"
proof -
  from caption_tokens_Inr [OF assms] obtain pm gm
    where pm: "lookup_all io (amax b) = Inr pm" and gm: "lookup_all io gw = Inr gm"
      and eg: "eos \<in> set gm"
      and pt: "pt = takeWhile (\<lambda>x. x \<noteq> eos) pm" and gt: "gt = takeWhile (\<lambda>x. x \<noteq> eos) gm"
    by blast
  have n1: "eos \<notin> set gt" unfolding gt by (auto dest: set_takeWhileD)
  have n2: "eos \<notin> set pt" unfolding pt by (auto dest: set_takeWhileD)
  from takeWhile_first_position [OF eg]
  have g: "\<exists>k<length gm. gm ! k = eos \<and> (\<forall>j<k. gm ! j \<noteq> eos) \<and> gt = take k gm"
    unfolding gt by blast
  have p1: "eos \<in> set pm \<longrightarrow>
            (\<exists>k<length pm. pm ! k = eos \<and> (\<forall>j<k. pm ! j \<noteq> eos) \<and> pt = take k pm)"
    unfolding pt using takeWhile_first_position [of eos pm] by blast
  have p2: "eos \<notin> set pm \<longrightarrow> pt = pm"
    unfolding pt by (simp add: takeWhile_absent)
  have ic: "item_captions amax io eos (gw, b, f)
               = Inr (file_key f, join '' '' pt, join '' '' gt)"
    by (simp add: item_captions_def assms)
  from pm gm n1 g n2 p1 p2 ic show ?thesis by blast
qed

theorem caption_tokens_truncation_witness:
  "caption_tokens (\<lambda>x. x) [''<eos>'', ''a'', ''b'', ''c''] ''<eos>'' [1, 2, 0, 3] [3, 0, 1, 0]
     = Inr ([''c''], [''a'', ''b''])
   \<and> caption_tokens (\<lambda>x. x) [''<eos>'', ''a'', ''b'', ''c''] ''<eos>'' [1, 0] [3, 3, 1]
     = Inr ([''c'', ''c'', ''a''], [''a''])
   \<and> item_captions (\<lambda>x. x) [''<eos>'', ''a'', ''b'', ''c''] ''<eos>''
        ([1, 2, 0, 3], [3, 0, 1, 0], [''clotho'', ''x.wav'']) = Inr (''x'', ''c'', ''a b'')"
proof -
  have h1: "caption_tokens (\<lambda>x. x) [''<eos>'', ''a'', ''b'', ''c''] ''<eos>'' [1, 2, 0, 3] [3, 0, 1, 0]
     = Inr ([''c''], [''a'', ''b''])"
    by code_simp
  have h2: "caption_tokens (\<lambda>x. x) [''<eos>'', ''a'', ''b'', ''c''] ''<eos>'' [1, 0] [3, 3, 1]
     = Inr ([''c'', ''c'', ''a''], [''a''])"
    by code_simp
  have k: "file_key [''clotho'', ''x.wav''] = ''x''"
    by code_simp
  from caption_tokens_truncation [OF h1, of "[''clotho'', ''x.wav'']"]
  have "item_captions (\<lambda>x. x) [''<eos>'', ''a'', ''b'', ''c''] ''<eos>''
          ([1, 2, 0, 3], [3, 0, 1, 0], [''clotho'', ''x.wav''])
        = Inr (file_key [''clotho'', ''x.wav''], join '' '' [''c''], join '' '' [''a'', ''b''])"
    by blast
  with h1 h2 k show ?thesis
    by simp
qed

text \<open>
  C3. For the item at any position \<open>i\<close> that the call reaches (the items before it decode
  without an exception) and whose indices map to tokens: when the mapped ground-truth sequence
  has no end-of-sequence token, the call fails with \<^verbatim>\<open>ValueError\<close>; when the ground
  truth has the token and the mapped predicted sequence has none, the item raises nothing and
  its predicted caption is the whole predicted sequence, joined by spaces.
\<close>

theorem decode_outputs_missing_eos:
  assumes i: "i < length gts" "i < length preds" "i < length fnames"
    and before: "decode_outputs amax (take i preds) (take i gts) io (take i fnames) eos pr = Inr r"
    and pm: "lookup_all io (amax (preds ! i)) = Inr pm"
    and gm: "lookup_all io (gts ! i) = Inr gm"
  shows "(eos \<notin> set gm \<longrightarrow>
            decode_outputs amax preds gts io fnames eos pr = Inl ValueError)
       \<and> (eos \<in> set gm \<and> eos \<notin> set pm \<longrightarrow>
            (\<exists>r'. decode_outputs amax (take (Suc i) preds) (take (Suc i) gts) io
                    (take (Suc i) fnames) eos pr = Inr r')
            \<and> item_captions amax io eos (gts ! i, preds ! i, fnames ! i)
                = Inr (file_key (fnames ! i), join '' '' pm,
                       join '' '' (takeWhile (\<lambda>x. x \<noteq> eos) gm)))"
proof -
  let ?items = "zip gts (zip preds fnames)"
  let ?st0 = "\<lparr>captions_pred = [], captions_gt = [], f_names = [],
      log_out = [(True, ''Captions start''), (False, ''Starting decoding of captions'')]
                   @ (if pr then [(False, sep_message)] else [])\<rparr>"
  have li: "i < length ?items" using i by simp
  have it: "?items ! i = (gts ! i, preds ! i, fnames ! i)" using i by (rule zip3_nth)
  from before obtain st where l: "decode_loop amax io eos pr ?st0 (take i ?items) = Inr st"
    by (auto simp: decode_outputs_def Let_def zip3_take split: sum.splits)
  from decode_loop_inv [OF dec_inv_init l] obtain ds where inv: "dec_inv ds st"
    by auto
  have ct: "caption_tokens amax io eos (gts ! i) (preds ! i) =
           (if eos \<in> set gm
            then Inr (takeWhile (\<lambda>x. x \<noteq> eos) pm, takeWhile (\<lambda>x. x \<noteq> eos) gm)
            else Inl ValueError)"
    by (rule caption_tokens_eq [where amax = amax and b = "preds ! i", OF pm gm])
  have a: "decode_outputs amax preds gts io fnames eos pr = Inl ValueError" if "eos \<notin> set gm"
  proof -
    have "item_captions amax io eos (?items ! i) = Inl ValueError"
      using that by (simp add: it item_captions_def ct)
    then have di: "decode_item amax io eos pr st (?items ! i) = Inl ValueError"
      by (simp add: decode_item_def)
    have "?items = take i ?items @ ?items ! i # drop (Suc i) ?items"
      using li by (rule id_take_nth_drop)
    then have "decode_loop amax io eos pr ?st0 ?items
               = decode_loop amax io eos pr ?st0 (take i ?items @ ?items ! i # drop (Suc i) ?items)"
      by simp
    also have "\<dots> = Inl ValueError"
      by (simp only: decode_loop_append l sum.case decode_loop.simps di)
    finally show ?thesis
      by (simp add: decode_outputs_def Let_def)
  qed
  have b: "(\<exists>r'. decode_outputs amax (take (Suc i) preds) (take (Suc i) gts) io
                    (take (Suc i) fnames) eos pr = Inr r')
            \<and> item_captions amax io eos (gts ! i, preds ! i, fnames ! i)
                = Inr (file_key (fnames ! i), join '' '' pm,
                       join '' '' (takeWhile (\<lambda>x. x \<noteq> eos) gm))"
    if "eos \<in> set gm" "eos \<notin> set pm"
  proof -
    have ic: "item_captions amax io eos (gts ! i, preds ! i, fnames ! i)
                = Inr (file_key (fnames ! i), join '' '' pm,
                       join '' '' (takeWhile (\<lambda>x. x \<noteq> eos) gm))"
      using that by (simp add: item_captions_def ct takeWhile_absent)
    from decode_item_inv(2) [OF inv, of amax io eos "?items ! i" _ pr] ic it
    obtain st' where di: "decode_item amax io eos pr st (?items ! i) = Inr st'"
      by auto
    have "take (Suc i) ?items = take i ?items @ [?items ! i]"
      using li by (rule take_Suc_conv_app_nth)
    then have "decode_loop amax io eos pr ?st0 (take (Suc i) ?items) = Inr st'"
      by (simp only: decode_loop_append l sum.case decode_loop.simps di)
    then have "\<exists>r'. decode_outputs amax (take (Suc i) preds) (take (Suc i) gts) io
                    (take (Suc i) fnames) eos pr = Inr r'"
      by (simp add: decode_outputs_def Let_def zip3_take)
    with ic show ?thesis by blast
  qed
  from a b show ?thesis by blast
qed

theorem decode_outputs_missing_eos_witness:
  "decode_outputs (\<lambda>x. x) [[1, 0], [3, 3]] [[1, 0], [2, 2]] [''<eos>'', ''a'', ''b'', ''c'']
      [[''clotho'', ''a.wav''], [''clotho'', ''b.wav'']] ''<eos>'' False = Inl ValueError
   \<and> (\<exists>r'. decode_outputs (\<lambda>x. x) [[1, 0], [3, 3]] [[1, 0], [2, 0]] [''<eos>'', ''a'', ''b'', ''c'']
      [[''clotho'', ''a.wav''], [''clotho'', ''b.wav'']] ''<eos>'' False = Inr r')
   \<and> item_captions (\<lambda>x. x) [''<eos>'', ''a'', ''b'', ''c''] ''<eos>''
        ([2, 0], [3, 3], [''clotho'', ''b.wav'']) = Inr (''b'', ''c c'', ''b'')"
proof -
  let ?io = "[''<eos>'', ''a'', ''b'', ''c'']"
  let ?fn = "[[''clotho'', ''a.wav''], [''clotho'', ''b.wav'']]"
  have "\<not> isl (decode_outputs (\<lambda>x. x) [[1, 0]] [[1, 0]] ?io [[''clotho'', ''a.wav'']] ''<eos>'' False)"
    by code_simp
  then obtain r where
    r: "decode_outputs (\<lambda>x. x) [[1, 0]] [[1, 0]] ?io [[''clotho'', ''a.wav'']] ''<eos>'' False = Inr r"
    by (cases "decode_outputs (\<lambda>x. x) [[1, 0]] [[1, 0]] ?io [[''clotho'', ''a.wav'']] ''<eos>'' False")
       auto
  have pm: "lookup_all ?io ((\<lambda>x. x) ([[1, 0], [3, 3]] ! 1)) = Inr [''c'', ''c'']"
    by (simp add: py_index_def)
  have g1: "lookup_all ?io ([[1, 0], [2, 2]] ! 1) = Inr [''b'', ''b'']"
    by (simp add: py_index_def)
  have g2: "lookup_all ?io ([[1, 0], [2, 0]] ! 1) = Inr [''b'', ''<eos>'']"
    by (simp add: py_index_def)
  have k: "file_key [''clotho'', ''b.wav''] = ''b''"
    by code_simp
  have a: "decode_outputs (\<lambda>x. x) [[1, 0], [3, 3]] [[1, 0], [2, 2]] ?io ?fn ''<eos>'' False
           = Inl ValueError"
    using decode_outputs_missing_eos [of 1 "[[1, 0], [2, 2]]" "[[1, 0], [3, 3]]" ?fn "\<lambda>x. x" ?io
        "''<eos>''" False r "[''c'', ''c'']" "[''b'', ''b'']"] r pm g1
    by simp
  have b: "(\<exists>r'. decode_outputs (\<lambda>x. x) [[1, 0], [3, 3]] [[1, 0], [2, 0]] ?io ?fn ''<eos>'' False
             = Inr r')
       \<and> item_captions (\<lambda>x. x) ?io ''<eos>'' ([2, 0], [3, 3], [''clotho'', ''b.wav''])
           = Inr (''b'', ''c c'', ''b'')"
    using decode_outputs_missing_eos [of 1 "[[1, 0], [2, 0]]" "[[1, 0], [3, 3]]" ?fn "\<lambda>x. x" ?io
        "''<eos>''" False r "[''c'', ''c'']" "[''b'', ''<eos>'']"] r pm g2 k
    by simp
  from a b show ?thesis by blast
qed

text \<open>
  C4. When the call returns, every item was decoded, to the list \<open>ds\<close> of (file key,
  predicted caption, ground-truth caption) in input order, and: the predicted list has one
  record per distinct file key (its length is the number of distinct keys), each with exactly
  the fields \<^verbatim>\<open>file_name\<close> and \<^verbatim>\<open>caption_predicted\<close>, the latter from the first item
  with that key; the ground-truth record of a key has \<^verbatim>\<open>file_name\<close> and then exactly the
  fields \<^verbatim>\<open>caption_1\<close> to \<^verbatim>\<open>caption_n\<close>, \<open>n\<close> the number of items with that key,
  holding their ground-truth captions in order of occurrence.
\<close>

theorem decode_outputs_records:
  assumes "decode_outputs amax preds gts io fnames eos pr = Inr (cp, cg, lg)"
  shows "\<exists>ds. map (item_captions amax io eos) (zip gts (zip preds fnames)) = map Inr ds
     \<and> map fst ds = map (\<lambda>item. file_key (snd (snd item))) (zip gts (zip preds fnames))
     \<and> length cp = card (set (map fst ds))
     \<and> cp = map (\<lambda>k. [(''file_name'', k), (''caption_predicted'', hd (preds_of ds k))])
              (first_appearance (map fst ds))
     \<and> cg = map (\<lambda>k. (''file_name'', k) #
                map (\<lambda>j. (''caption_'' @ str_nat (Suc j), refs_of ds k ! j))
                  [0..<length (refs_of ds k)])
              (first_appearance (map fst ds))"
proof -
  from decode_outputs_inv [OF assms] obtain ds
    where m: "map (item_captions amax io eos) (zip gts (zip preds fnames)) = map Inr ds"
      and cp: "cp = map (spec_pred_record ds) (first_appearance (map fst ds))"
      and cg: "cg = map (spec_gt_record ds) (first_appearance (map fst ds))"
    by blast
  have "length cp = card (set (map fst ds))"
    by (simp only: cp length_map length_first_appearance)
  moreover have "spec_pred_record ds
         = (\<lambda>k. [(''file_name'', k), (''caption_predicted'', hd (preds_of ds k))])"
    by (rule ext) (simp add: spec_pred_record_def)
  moreover have "spec_gt_record ds
         = (\<lambda>k. (''file_name'', k) #
                map (\<lambda>j. (''caption_'' @ str_nat (Suc j), refs_of ds k ! j))
                  [0..<length (refs_of ds k)])"
    by (rule ext) (simp add: spec_gt_record_def numbered_def)
  ultimately show ?thesis
    using m item_keys [OF m] cp cg by (intro exI [of _ ds]) (simp only: simp_thms)
qed

theorem decode_outputs_records_witness:
  "(\<exists>lg. decode_outputs (\<lambda>x. x) [[1, 0], [2, 0], [3, 0]] [[1, 0], [2, 0], [3, 3, 0]]
       [''<eos>'', ''a'', ''b'', ''c'']
       [[''clotho'', ''a.wav''], [''clotho'', ''b.wav''], [''clotho'', ''a.wav'']] ''<eos>'' False
       = Inr ([[(''file_name'', ''a''), (''caption_predicted'', ''a'')],
           [(''file_name'', ''b''), (''caption_predicted'', ''b'')]],
          [[(''file_name'', ''a''), (''caption_1'', ''a''), (''caption_2'', ''c c'')],
           [(''file_name'', ''b''), (''caption_1'', ''b'')]], lg))
   \<and> (\<exists>ds. map (item_captions (\<lambda>x. x) [''<eos>'', ''a'', ''b'', ''c''] ''<eos>'')
            (zip [[1, 0], [2, 0], [3, 3, 0 :: int]] (zip [[1, 0], [2, 0], [3, 0 :: int]]
               [[''clotho'', ''a.wav''], [''clotho'', ''b.wav''], [''clotho'', ''a.wav'']]))
          = map Inr ds
        \<and> map fst ds = [''a'', ''b'', ''a'']
        \<and> length [[(''file_name'', ''a''), (''caption_predicted'', ''a'')],
           [(''file_name'', ''b''), (''caption_predicted'', ''b'')]] = card (set (map fst ds)))"
proof -
  have "map_sum id (\<lambda>r. (fst r, fst (snd r)))
          (decode_outputs (\<lambda>x. x) [[1, 0], [2, 0], [3, 0]] [[1, 0], [2, 0], [3, 3, 0]]
       [''<eos>'', ''a'', ''b'', ''c'']
       [[''clotho'', ''a.wav''], [''clotho'', ''b.wav''], [''clotho'', ''a.wav'']] ''<eos>'' False)
        = Inr ([[(''file_name'', ''a''), (''caption_predicted'', ''a'')],
           [(''file_name'', ''b''), (''caption_predicted'', ''b'')]],
          [[(''file_name'', ''a''), (''caption_1'', ''a''), (''caption_2'', ''c c'')],
           [(''file_name'', ''b''), (''caption_1'', ''b'')]])"
    by code_simp
  then obtain lg where h: "decode_outputs (\<lambda>x. x) [[1, 0], [2, 0], [3, 0]] [[1, 0], [2, 0], [3, 3, 0]]
       [''<eos>'', ''a'', ''b'', ''c'']
       [[''clotho'', ''a.wav''], [''clotho'', ''b.wav''], [''clotho'', ''a.wav'']] ''<eos>'' False
       = Inr ([[(''file_name'', ''a''), (''caption_predicted'', ''a'')],
           [(''file_name'', ''b''), (''caption_predicted'', ''b'')]],
          [[(''file_name'', ''a''), (''caption_1'', ''a''), (''caption_2'', ''c c'')],
           [(''file_name'', ''b''), (''caption_1'', ''b'')]], lg)"
    by (cases "decode_outputs (\<lambda>x. x) [[1, 0], [2, 0], [3, 0]] [[1, 0], [2, 0], [3, 3, 0]]
       [''<eos>'', ''a'', ''b'', ''c'']
       [[''clotho'', ''a.wav''], [''clotho'', ''b.wav''], [''clotho'', ''a.wav'']] ''<eos>'' False") auto
  have k: "map (\<lambda>item. file_key (snd (snd item)))
             (zip [[1, 0], [2, 0], [3, 3, 0 :: int]] (zip [[1, 0], [2, 0], [3, 0 :: int]]
               [[''clotho'', ''a.wav''], [''clotho'', ''b.wav''], [''clotho'', ''a.wav'']]))
           = [''a'', ''b'', ''a'']"
    by code_simp
  from decode_outputs_records [OF h] obtain ds
    where "map (item_captions (\<lambda>x. x) [''<eos>'', ''a'', ''b'', ''c''] ''<eos>'')
            (zip [[1, 0], [2, 0], [3, 3, 0 :: int]] (zip [[1, 0], [2, 0], [3, 0 :: int]]
               [[''clotho'', ''a.wav''], [''clotho'', ''b.wav''], [''clotho'', ''a.wav'']]))
          = map Inr ds"
      and "map fst ds = map (\<lambda>item. file_key (snd (snd item)))
             (zip [[1, 0], [2, 0], [3, 3, 0 :: int]] (zip [[1, 0], [2, 0], [3, 0 :: int]]
               [[''clotho'', ''a.wav''], [''clotho'', ''b.wav''], [''clotho'', ''a.wav'']]))"
      and "length [[(''file_name'', ''a''), (''caption_predicted'', ''a'')],
           [(''file_name'', ''b''), (''caption_predicted'', ''b'')]] = card (set (map fst ds))"
    by (elim exE conjE)
  with h k show ?thesis
    by (intro conjI exI [of _ lg] exI [of _ ds]) (simp_all only:)
qed

text \<open>
  C10. When the call returns, the two returned lists have the same length, and at every
  index the predicted record and the ground-truth record have the same \<^verbatim>\<open>file_name\<close>.
\<close>

theorem decode_outputs_aligned:
  assumes "decode_outputs amax preds gts io fnames eos pr = Inr (cp, cg, lg)"
  shows "length cp = length cg
       \<and> (\<forall>i<length cp. \<exists>k. dict_get (cp ! i) ''file_name'' = Inr k
                              \<and> dict_get (cg ! i) ''file_name'' = Inr k)"
proof -
  from decode_outputs_inv [OF assms] obtain ds
    where cp: "cp = map (spec_pred_record ds) (first_appearance (map fst ds))"
      and cg: "cg = map (spec_gt_record ds) (first_appearance (map fst ds))"
    by blast
  show ?thesis
    by (simp add: cp cg dict_get_def spec_pred_record_def spec_gt_record_def)
qed

theorem decode_outputs_aligned_witness:
  "(\<exists>lg. decode_outputs (\<lambda>x. x) [[1, 0], [2, 0], [3, 0]] [[1, 0], [2, 0], [3, 3, 0]]
       [''<eos>'', ''a'', ''b'', ''c'']
       [[''clotho'', ''a.wav''], [''clotho'', ''b.wav''], [''clotho'', ''a.wav'']] ''<eos>'' False
       = Inr ([[(''file_name'', ''a''), (''caption_predicted'', ''a'')],
           [(''file_name'', ''b''), (''caption_predicted'', ''b'')]],
          [[(''file_name'', ''a''), (''caption_1'', ''a''), (''caption_2'', ''c c'')],
           [(''file_name'', ''b''), (''caption_1'', ''b'')]], lg))
   \<and> length [[(''file_name'', ''a''), (''caption_predicted'', ''a'')],
           [(''file_name'', ''b''), (''caption_predicted'', ''b'')]] = length [[(''file_name'', ''a''), (''caption_1'', ''a''), (''caption_2'', ''c c'')],
           [(''file_name'', ''b''), (''caption_1'', ''b'')]]"
proof -
  have "map_sum id (\<lambda>r. (fst r, fst (snd r)))
          (decode_outputs (\<lambda>x. x) [[1, 0], [2, 0], [3, 0]] [[1, 0], [2, 0], [3, 3, 0]]
       [''<eos>'', ''a'', ''b'', ''c'']
       [[''clotho'', ''a.wav''], [''clotho'', ''b.wav''], [''clotho'', ''a.wav'']] ''<eos>'' False)
        = Inr ([[(''file_name'', ''a''), (''caption_predicted'', ''a'')],
           [(''file_name'', ''b''), (''caption_predicted'', ''b'')]],
          [[(''file_name'', ''a''), (''caption_1'', ''a''), (''caption_2'', ''c c'')],
           [(''file_name'', ''b''), (''caption_1'', ''b'')]])"
    by code_simp
  then obtain lg where h: "decode_outputs (\<lambda>x. x) [[1, 0], [2, 0], [3, 0]] [[1, 0], [2, 0], [3, 3, 0]]
       [''<eos>'', ''a'', ''b'', ''c'']
       [[''clotho'', ''a.wav''], [''clotho'', ''b.wav''], [''clotho'', ''a.wav'']] ''<eos>'' False
       = Inr ([[(''file_name'', ''a''), (''caption_predicted'', ''a'')],
           [(''file_name'', ''b''), (''caption_predicted'', ''b'')]],
          [[(''file_name'', ''a''), (''caption_1'', ''a''), (''caption_2'', ''c c'')],
           [(''file_name'', ''b''), (''caption_1'', ''b'')]], lg)"
    by (cases "decode_outputs (\<lambda>x. x) [[1, 0], [2, 0], [3, 0]] [[1, 0], [2, 0], [3, 3, 0]]
       [''<eos>'', ''a'', ''b'', ''c'']
       [[''clotho'', ''a.wav''], [''clotho'', ''b.wav''], [''clotho'', ''a.wav'']] ''<eos>'' False") auto
  from decode_outputs_aligned [OF h] have "length [[(''file_name'', ''a''), (''caption_predicted'', ''a'')],
           [(''file_name'', ''b''), (''caption_predicted'', ''b'')]] = length [[(''file_name'', ''a''), (''caption_1'', ''a''), (''caption_2'', ''c c'')],
           [(''file_name'', ''b''), (''caption_1'', ''b'')]]"
    by (rule conjunct1)
  with h show ?thesis
    by (intro conjI exI [of _ lg])
qed

text \<open>
  C6. The returned pair (or the exception) is a function of the predicted outputs, the ground
  truths, the index table, the file names and the end-of-sequence token alone: the model has
  no other input than the tensor operation and the print flag, and the flag does not change
  the returned pair. When the call returns, the \<^verbatim>\<open>file_name\<close> values of both lists are the
  file keys of the processed items in order of first appearance.
\<close>

theorem decode_outputs_deterministic_ordered:
  "map_sum id (\<lambda>r. (fst r, fst (snd r))) (decode_outputs amax preds gts io fnames eos pr)
     = map_sum id (\<lambda>r. (fst r, fst (snd r))) (decode_outputs amax preds gts io fnames eos pr')
   \<and> (\<forall>cp cg lg. decode_outputs amax preds gts io fnames eos pr = Inr (cp, cg, lg) \<longrightarrow>
        map (\<lambda>d. dict_get d ''file_name'') cp
          = map Inr (first_appearance
              (map (\<lambda>item. file_key (snd (snd item))) (zip gts (zip preds fnames))))
      \<and> map (\<lambda>d. dict_get d ''file_name'') cg
          = map Inr (first_appearance
              (map (\<lambda>item. file_key (snd (snd item))) (zip gts (zip preds fnames)))))"
proof (intro conjI allI impI)
  show "map_sum id (\<lambda>r. (fst r, fst (snd r))) (decode_outputs amax preds gts io fnames eos pr)
     = map_sum id (\<lambda>r. (fst r, fst (snd r))) (decode_outputs amax preds gts io fnames eos pr')"
    by (rule decode_outputs_print_irrelevant)
next
  fix cp cg lg
  assume a: "decode_outputs amax preds gts io fnames eos pr = Inr (cp, cg, lg)"
  from decode_outputs_inv [OF a] obtain ds
    where m: "map (item_captions amax io eos) (zip gts (zip preds fnames)) = map Inr ds"
      and cp: "cp = map (spec_pred_record ds) (first_appearance (map fst ds))"
      and cg: "cg = map (spec_gt_record ds) (first_appearance (map fst ds))"
    by blast
  show "map (\<lambda>d. dict_get d ''file_name'') cp
          = map Inr (first_appearance
              (map (\<lambda>item. file_key (snd (snd item))) (zip gts (zip preds fnames))))"
    by (simp only: cp file_names_of_records item_keys [OF m])
  show "map (\<lambda>d. dict_get d ''file_name'') cg
          = map Inr (first_appearance
              (map (\<lambda>item. file_key (snd (snd item))) (zip gts (zip preds fnames))))"
    by (simp only: cg file_names_of_records item_keys [OF m])
qed

theorem decode_outputs_deterministic_ordered_witness:
  "(\<exists>lg. decode_outputs (\<lambda>x. x) [[1, 0], [2, 0], [3, 0]] [[1, 0], [2, 0], [3, 3, 0]]
       [''<eos>'', ''a'', ''b'', ''c'']
       [[''clotho'', ''a.wav''], [''clotho'', ''b.wav''], [''clotho'', ''a.wav'']] ''<eos>'' False
       = Inr ([[(''file_name'', ''a''), (''caption_predicted'', ''a'')],
           [(''file_name'', ''b''), (''caption_predicted'', ''b'')]],
          [[(''file_name'', ''a''), (''caption_1'', ''a''), (''caption_2'', ''c c'')],
           [(''file_name'', ''b''), (''caption_1'', ''b'')]], lg))
   \<and> map_sum id (\<lambda>r. (fst r, fst (snd r))) (decode_outputs (\<lambda>x. x) [[1, 0], [2, 0], [3, 0]] [[1, 0], [2, 0], [3, 3, 0]]
       [''<eos>'', ''a'', ''b'', ''c'']
       [[''clotho'', ''a.wav''], [''clotho'', ''b.wav''], [''clotho'', ''a.wav'']] ''<eos>'' False)
       = map_sum id (\<lambda>r. (fst r, fst (snd r))) (decode_outputs (\<lambda>x. x) [[1, 0], [2, 0], [3, 0]] [[1, 0], [2, 0], [3, 3, 0]]
       [''<eos>'', ''a'', ''b'', ''c'']
       [[''clotho'', ''a.wav''], [''clotho'', ''b.wav''], [''clotho'', ''a.wav'']] ''<eos>'' True)
   \<and> map (\<lambda>d. dict_get d ''file_name'') [[(''file_name'', ''a''), (''caption_predicted'', ''a'')],
           [(''file_name'', ''b''), (''caption_predicted'', ''b'')]] = [Inr ''a'', Inr ''b'']
   \<and> map (\<lambda>d. dict_get d ''file_name'') [[(''file_name'', ''a''), (''caption_1'', ''a''), (''caption_2'', ''c c'')],
           [(''file_name'', ''b''), (''caption_1'', ''b'')]] = [Inr ''a'', Inr ''b'']"
proof -
  have "map_sum id (\<lambda>r. (fst r, fst (snd r)))
          (decode_outputs (\<lambda>x. x) [[1, 0], [2, 0], [3, 0]] [[1, 0], [2, 0], [3, 3, 0]]
       [''<eos>'', ''a'', ''b'', ''c'']
       [[''clotho'', ''a.wav''], [''clotho'', ''b.wav''], [''clotho'', ''a.wav'']] ''<eos>'' False)
        = Inr ([[(''file_name'', ''a''), (''caption_predicted'', ''a'')],
           [(''file_name'', ''b''), (''caption_predicted'', ''b'')]],
          [[(''file_name'', ''a''), (''caption_1'', ''a''), (''caption_2'', ''c c'')],
           [(''file_name'', ''b''), (''caption_1'', ''b'')]])"
    by code_simp
  then obtain lg where h: "decode_outputs (\<lambda>x. x) [[1, 0], [2, 0], [3, 0]] [[1, 0], [2, 0], [3, 3, 0]]
       [''<eos>'', ''a'', ''b'', ''c'']
       [[''clotho'', ''a.wav''], [''clotho'', ''b.wav''], [''clotho'', ''a.wav'']] ''<eos>'' False
       = Inr ([[(''file_name'', ''a''), (''caption_predicted'', ''a'')],
           [(''file_name'', ''b''), (''caption_predicted'', ''b'')]],
          [[(''file_name'', ''a''), (''caption_1'', ''a''), (''caption_2'', ''c c'')],
           [(''file_name'', ''b''), (''caption_1'', ''b'')]], lg)"
    by (cases "decode_outputs (\<lambda>x. x) [[1, 0], [2, 0], [3, 0]] [[1, 0], [2, 0], [3, 3, 0]]
       [''<eos>'', ''a'', ''b'', ''c'']
       [[''clotho'', ''a.wav''], [''clotho'', ''b.wav''], [''clotho'', ''a.wav'']] ''<eos>'' False") auto
  have k: "first_appearance (map (\<lambda>item. file_key (snd (snd item)))
             (zip [[1, 0], [2, 0], [3, 3, 0 :: int]] (zip [[1, 0], [2, 0], [3, 0 :: int]]
               [[''clotho'', ''a.wav''], [''clotho'', ''b.wav''], [''clotho'', ''a.wav'']])))
           = [''a'', ''b'']"
    by code_simp
  note t = decode_outputs_deterministic_ordered [of "\<lambda>x. x" "[[1, 0], [2, 0], [3, 0]]"
      "[[1, 0], [2, 0], [3, 3, 0]]" "[''<eos>'', ''a'', ''b'', ''c'']"
      "[[''clotho'', ''a.wav''], [''clotho'', ''b.wav''], [''clotho'', ''a.wav'']]" "''<eos>''"
      False True]
  note o = t [THEN conjunct1]
  note p = t [THEN conjunct2, rule_format, OF h]
  from p [THEN conjunct1] p [THEN conjunct2] k o h show ?thesis
    by (intro conjI exI [of _ lg]) (simp_all only: list.map)
qed

subsection \<open>The training loop\<close>

lemma saves_append: "saves (xs @ ys) = saves xs @ saves ys"
  by (induction xs rule: saves.induct) auto

lemma epoch_loop_append:
  "epoch_loop env cfg f d io st (xs @ ys) =
     (case epoch_loop env cfg f d io st xs of
        Inl e \<Rightarrow> Inl e
      | Inr st' \<Rightarrow> epoch_loop env cfg f d io st' ys)"
  by (induction xs arbitrary: st) (auto split: sum.splits)

lemma check_stopping_fields:
  "prv_training_loss (check_stopping cfg s) = prv_training_loss s"
  "patience_counter (check_stopping cfg s) = patience_counter s"
  "best_epoch (check_stopping cfg s) = best_epoch s"
  "model (check_stopping cfg s) = model s"
  "optimizer (check_stopping cfg s) = optimizer s"
  "files (check_stopping cfg s) = files s"
  "saves (trace (check_stopping cfg s)) = saves (trace s)"
  "take (length (trace s)) (trace (check_stopping cfg s)) = trace s"
  by (simp_all add: check_stopping_def saves_append)

lemma save_latest_fields:
  "prv_training_loss (save_latest f d s) = prv_training_loss s"
  "patience_counter (save_latest f d s) = patience_counter s"
  "best_epoch (save_latest f d s) = best_epoch s"
  "model (save_latest f d s) = model s"
  "optimizer (save_latest f d s) = optimizer s"
  "files (save_latest f d s) = (files s)(latest_file d f '''' \<mapsto> ModelState (model s),
       latest_file d f ''_optimizer'' \<mapsto> OptimizerState (optimizer s))"
  "trace (save_latest f d s) = trace s @ [Saved (latest_file d f '''') (ModelState (model s)),
       Saved (latest_file d f ''_optimizer'') (OptimizerState (optimizer s))]"
  by (simp_all add: save_latest_def pt_save_def)

lemma check_improvement_fields:
  "model (check_improvement cfg f d e l s) = model s"
  "optimizer (check_improvement cfg f d e l s) = optimizer s"
  "prv_training_loss (check_improvement cfg f d e l s)
     = (if loss_thr cfg < prv_training_loss s - l then l else prv_training_loss s)"
  "patience_counter (check_improvement cfg f d e l s)
     = (if loss_thr cfg < prv_training_loss s - l then 0 else patience_counter s + 1)"
  "best_epoch (check_improvement cfg f d e l s)
     = (if loss_thr cfg < prv_training_loss s - l then e else best_epoch s)"
  "files (check_improvement cfg f d e l s)
     = (if loss_thr cfg < prv_training_loss s - l
        then (files s)(epoch_file d f e \<mapsto> ModelState (model s)) else files s)"
  "trace (check_improvement cfg f d e l s)
     = trace s @ (if loss_thr cfg < prv_training_loss s - l
                  then [Saved (epoch_file d f e) (ModelState (model s))] else [])"
  by (simp_all add: check_improvement_def pt_save_def)

lemma epoch_body_Inr:
  assumes "epoch_body env cfg f d io e st = Inr st'"
  obtains st2 where
    "st' = check_stopping cfg (save_latest f d
             (check_improvement cfg f d e (epoch_loss env st) st2))"
    "prv_training_loss st2 = prv_training_loss st"
    "patience_counter st2 = patience_counter st"
    "best_epoch st2 = best_epoch st"
    "files st2 = files st"
    "(model st2, optimizer st2) = snd (module_epoch_passing env (model st) (optimizer st))"
    "\<exists>evs. trace st2 = trace st @ evs \<and> saves evs = []"
proof -
  obtain l yh y fn m' o' where
    mp: "module_epoch_passing env (model st) (optimizer st) = ((l, yh, y, fn), m', o')"
    by (metis prod_cases3 prod.exhaust)
  let ?st1 = "st\<lparr>model := m', optimizer := o', trace := trace st @ [EpochInfo e l]\<rparr>"
  from assms mp obtain st2 where
    r: "st' = check_stopping cfg (save_latest f d (check_improvement cfg f d e l st2))"
    and c: "st2 = ?st1 \<or> (\<exists>lg. st2 = ?st1\<lparr>trace := trace ?st1 @ [CaptionLog lg]\<rparr>)"
    by (auto simp: epoch_body_def Let_def split: if_splits sum.splits)
  have el: "epoch_loss env st = l"
    by (simp add: epoch_loss_def mp)
  from c show ?thesis
  proof
    assume "st2 = ?st1"
    then show ?thesis
      using r by (intro that [of st2]) (simp_all add: el mp)
  next
    assume "\<exists>lg. st2 = ?st1\<lparr>trace := trace ?st1 @ [CaptionLog lg]\<rparr>"
    then obtain lg where "st2 = ?st1\<lparr>trace := trace ?st1 @ [CaptionLog lg]\<rparr>" ..
    then show ?thesis
      using r by (intro that [of st2]) (simp_all add: el mp)
  qed
qed

lemma latest_neq_epoch_file [simp]:
  "latest_file d f x \<noteq> epoch_file d f e" "epoch_file d f e \<noteq> latest_file d f x"
  by (simp_all add: latest_file_def epoch_file_def joinpath_def)

lemma latest_files_distinct [simp]:
  "latest_file d f [] \<noteq> latest_file d f ''_optimizer''"
  "latest_file d f ''_optimizer'' \<noteq> latest_file d f []"
  by (simp_all add: latest_file_def joinpath_def)

lemma example_improve:
  assumes "int e + 1 < 1000" and "thr < pv - L ! m"
  shows "epoch_body (example_env L) (example_cfg n p thr) f d io e
           \<lparr>prv_training_loss = pv, patience_counter = c, best_epoch = b, model = m,
            optimizer = u, files = fs, trace = tr\<rparr>
         = Inr \<lparr>prv_training_loss = L ! m, patience_counter = 0, best_epoch = e, model = Suc m,
             optimizer = u,
             files = fs(epoch_file d f e \<mapsto> ModelState (Suc m),
                        latest_file d f [] \<mapsto> ModelState (Suc m),
                        latest_file d f ''_optimizer'' \<mapsto> OptimizerState u),
             trace = tr @ [EpochInfo e (L ! m), Saved (epoch_file d f e) (ModelState (Suc m)),
                           Saved (latest_file d f []) (ModelState (Suc m)),
                           Saved (latest_file d f ''_optimizer'') (OptimizerState u)]
                        @ (if p \<le> 0 then [StopInfo 0] else [])\<rparr>"
  using assms
  by (simp add: epoch_body_def example_env_def example_cfg_def check_stopping_def
      save_latest_def check_improvement_def pt_save_def)

lemma example_stay:
  assumes "int e + 1 < 1000" and "\<not> thr < pv - L ! m"
  shows "epoch_body (example_env L) (example_cfg n p thr) f d io e
           \<lparr>prv_training_loss = pv, patience_counter = c, best_epoch = b, model = m,
            optimizer = u, files = fs, trace = tr\<rparr>
         = Inr \<lparr>prv_training_loss = pv, patience_counter = c + 1, best_epoch = b, model = Suc m,
             optimizer = u,
             files = fs(latest_file d f [] \<mapsto> ModelState (Suc m),
                        latest_file d f ''_optimizer'' \<mapsto> OptimizerState u),
             trace = tr @ [EpochInfo e (L ! m),
                           Saved (latest_file d f []) (ModelState (Suc m)),
                           Saved (latest_file d f ''_optimizer'') (OptimizerState u)]
                        @ (if p \<le> c + 1 then [StopInfo (c + 1)] else [])\<rparr>"
  using assms
  by (simp add: epoch_body_def example_env_def example_cfg_def check_stopping_def
      save_latest_def check_improvement_def pt_save_def)

lemma improvement_effect:
  assumes "epoch_body env cfg f d io e t = Inr t'"
    and "loss_thr cfg < prv_training_loss t - epoch_loss env t"
  shows "best_epoch t' = e"
    and "files t' (epoch_file d f e) = Some (ModelState (model t'))"
    and "prv_training_loss t' = epoch_loss env t"
    and "patience_counter t' = 0"
proof -
  from assms(1) obtain t2 where
    r: "t' = check_stopping cfg (save_latest f d
             (check_improvement cfg f d e (epoch_loss env t) t2))"
    and p: "prv_training_loss t2 = prv_training_loss t"
    by (rule epoch_body_Inr)
  from assms(2) p show "best_epoch t' = e"
    and "files t' (epoch_file d f e) = Some (ModelState (model t'))"
    and "prv_training_loss t' = epoch_loss env t"
    and "patience_counter t' = 0"
    by (simp_all add: r check_stopping_fields save_latest_fields check_improvement_fields)
qed

lemma no_improvement_effect:
  assumes "epoch_body env cfg f d io e t = Inr t'"
    and "\<not> loss_thr cfg < prv_training_loss t - epoch_loss env t"
  shows "best_epoch t' = best_epoch t"
    and "files t' (epoch_file d f b) = files t (epoch_file d f b)"
    and "prv_training_loss t' = prv_training_loss t"
    and "patience_counter t' = patience_counter t + 1"
proof -
  from assms(1) obtain t2 where
    r: "t' = check_stopping cfg (save_latest f d
             (check_improvement cfg f d e (epoch_loss env t) t2))"
    and p: "prv_training_loss t2 = prv_training_loss t"
      "patience_counter t2 = patience_counter t" "best_epoch t2 = best_epoch t"
      "files t2 = files t"
    by (rule epoch_body_Inr)
  from assms(2) p show "best_epoch t' = best_epoch t"
    and "files t' (epoch_file d f b) = files t (epoch_file d f b)"
    and "prv_training_loss t' = prv_training_loss t"
    and "patience_counter t' = patience_counter t + 1"
    by (simp_all add: r check_stopping_fields save_latest_fields check_improvement_fields)
qed

lemma epoch_loop_snoc_Inr:
  assumes "epoch_loop env cfg f d io s (xs @ [x]) = Inr t"
  obtains u where "epoch_loop env cfg f d io s xs = Inr u"
    and "epoch_body env cfg f d io x u = Inr t"
  using assms by (auto simp: epoch_loop_append split: sum.splits)

lemma tail_without_improvement:
  assumes "epoch_loop env cfg f d io s' [a..<a + k] = Inr t"
    and "\<And>e' u. a \<le> e' \<Longrightarrow> e' < a + k \<Longrightarrow> epoch_loop env cfg f d io s' [a..<e'] = Inr u
           \<Longrightarrow> \<not> loss_thr cfg < prv_training_loss u - epoch_loss env u"
  shows "best_epoch t = best_epoch s' \<and> files t (epoch_file d f b) = files s' (epoch_file d f b)"
  using assms
proof (induction k arbitrary: t)
  case 0
  then show ?case by simp
next
  case (Suc k)
  have "[a..<a + Suc k] = [a..<a + k] @ [a + k]" by simp
  with Suc.prems(1) have "epoch_loop env cfg f d io s' ([a..<a + k] @ [a + k]) = Inr t"
    by simp
  then obtain u where u: "epoch_loop env cfg f d io s' [a..<a + k] = Inr u"
    and b: "epoch_body env cfg f d io (a + k) u = Inr t"
    by (rule epoch_loop_snoc_Inr)
  have ih: "best_epoch u = best_epoch s' \<and> files u (epoch_file d f b) = files s' (epoch_file d f b)"
    by (rule Suc.IH [OF u]) (rule Suc.prems(2), simp_all)
  have "\<not> loss_thr cfg < prv_training_loss u - epoch_loss env u"
    by (rule Suc.prems(2) [OF _ _ u]) simp_all
  from no_improvement_effect(1) [OF b this] no_improvement_effect(2) [OF b this, where b = b] ih
  show ?case
    by simp
qed

text \<open>
  The example run with the losses and the threshold at the exact values of their binary64
  numerals (9.48, 9.47 and 0.01 are not binary fractions). All four differences
  \<open>prv - loss\<close> of this run are binary64 numbers themselves, so that the floating-point
  subtraction is exact on them and the run classifies the epochs as the one over the decimal
  values does: patience counters 0, 0, 0, 1 and best epochs 0, 1, 2, 2.
\<close>

lemma example_run_binary64_values:
  "map (\<lambda>k. map_sum id (\<lambda>s. (patience_counter s, best_epoch s))
          (epoch_loop
             (example_env [10, 19 / 2, 2668382779217019 / 281474976710656,
                           5331136058899825 / 562949953421312])
             (example_cfg 4 2 (5764607523034235 / 576460752303423488)) ''m.pt'' [''out''] []
             (initial_state
                (example_env [10, 19 / 2, 2668382779217019 / 281474976710656,
                              5331136058899825 / 562949953421312]) 0 Map.empty) [0..<k]))
     [1, 2, 3, 4]
   = [Inr (0, 0), Inr (0, 1), Inr (0, 2), Inr (1, 2)]"
proof -
  have u: "[0..<1] = [0]" "[0..<2] = [0, 1]" "[0..<3] = [0, 1, 2]" "[0..<4] = [0, 1, 2, 3]"
    by code_simp+
  show ?thesis
    by (simp add: u initial_state_def example_improve example_stay)
qed

lemma epochs_run_append: "epochs_run (xs @ ys) = epochs_run xs @ epochs_run ys"
  by (induction xs rule: epochs_run.induct) auto

lemma epoch_body_epochs_run:
  assumes "epoch_body env cfg f d io e st = Inr st'"
  shows "epochs_run (trace st') = epochs_run (trace st) @ [e]"
proof -
  obtain l yh y fn m' o' where
    mp: "module_epoch_passing env (model st) (optimizer st) = ((l, yh, y, fn), m', o')"
    by (metis prod_cases3 prod.exhaust)
  let ?st1 = "st\<lparr>model := m', optimizer := o', trace := trace st @ [EpochInfo e l]\<rparr>"
  from assms mp obtain st2 where
    r: "st' = check_stopping cfg (save_latest f d (check_improvement cfg f d e l st2))"
    and c: "st2 = ?st1 \<or> (\<exists>lg. st2 = ?st1\<lparr>trace := trace ?st1 @ [CaptionLog lg]\<rparr>)"
    by (auto simp: epoch_body_def Let_def split: if_splits sum.splits)
  from c have "epochs_run (trace st2) = epochs_run (trace st) @ [e]"
    by (auto simp: epochs_run_append)
  then show ?thesis
    by (simp add: r check_stopping_def save_latest_fields check_improvement_fields
        epochs_run_append)
qed

lemma epoch_loop_epochs_run:
  "epoch_loop env cfg f d io st es = Inr st' \<Longrightarrow>
   epochs_run (trace st') = epochs_run (trace st) @ es"
proof (induction es arbitrary: st)
  case Nil
  then show ?case by simp
next
  case (Cons e es)
  from Cons.prems obtain s1 where b: "epoch_body env cfg f d io e st = Inr s1"
    and l: "epoch_loop env cfg f d io s1 es = Inr st'"
    by (auto split: sum.splits)
  from Cons.IH [OF l] epoch_body_epochs_run [OF b] show ?case
    by simp
qed

text \<open>
  Whenever the function returns, every epoch of the budget has been run, whatever the
  patience limit and the losses are: the loop is never left early.
\<close>

lemma every_epoch_of_the_budget_runs:
  assumes "do_training env cfg f d io m0 fs0 = Inr fin"
  shows "epochs_run (trace fin) = [0..<nat (nb_epochs cfg)]"
proof -
  from assms obtain stn where
    l: "epoch_loop env cfg f d io (initial_state env m0 fs0) [0..<nat (nb_epochs cfg)] = Inr stn"
    and t: "trace fin = trace stn @ [Info ''Training done'']"
    by (auto simp: do_training_def Let_def split: sum.splits option.splits state_dict.splits)
  from epoch_loop_epochs_run [OF l] show ?thesis
    by (simp add: t epochs_run_append initial_state_def)
qed

subsection \<open>Claims about the training orchestrator\<close>

text \<open>
  C1. The claim is that the epoch loop ends as soon as the patience counter has reached the
  patience limit. The loop of the source has no exit: the run below has seven epochs, a
  patience limit of 2 and the losses 10.0, 9.5, 9.48, 9.47, 9.47, 9.47, 9.47. At the end of
  epoch 4 the counter is 2 and the stop notice is written, and epochs 5 and 6 are run all the
  same, each with a pass over the data, its files and another stop notice.
\<close>

theorem stop_notice_without_exit:
  "map_sum id trace
     (do_training (example_env [10.0, 9.5, 9.48, 9.47, 9.47, 9.47, 9.47]) (example_cfg 7 2 0.01)
        ''m.pt'' [''out''] [] 0 Map.empty)
   = Inr [Info ''Getting training data'', Info ''Done'', Info ''Starting training'',
          EpochInfo 0 10.0,
          Saved (epoch_file [''out''] ''m.pt'' 0) (ModelState 1),
          Saved (latest_file [''out''] ''m.pt'' []) (ModelState 1),
          Saved (latest_file [''out''] ''m.pt'' ''_optimizer'') (OptimizerState ()),
          EpochInfo 1 9.5,
          Saved (epoch_file [''out''] ''m.pt'' 1) (ModelState 2),
          Saved (latest_file [''out''] ''m.pt'' []) (ModelState 2),
          Saved (latest_file [''out''] ''m.pt'' ''_optimizer'') (OptimizerState ()),
          EpochInfo 2 9.48,
          Saved (epoch_file [''out''] ''m.pt'' 2) (ModelState 3),
          Saved (latest_file [''out''] ''m.pt'' []) (ModelState 3),
          Saved (latest_file [''out''] ''m.pt'' ''_optimizer'') (OptimizerState ()),
          EpochInfo 3 9.47,
          Saved (latest_file [''out''] ''m.pt'' []) (ModelState 4),
          Saved (latest_file [''out''] ''m.pt'' ''_optimizer'') (OptimizerState ()),
          EpochInfo 4 9.47,
          Saved (latest_file [''out''] ''m.pt'' []) (ModelState 5),
          Saved (latest_file [''out''] ''m.pt'' ''_optimizer'') (OptimizerState ()),
          StopInfo 2,
          EpochInfo 5 9.47,
          Saved (latest_file [''out''] ''m.pt'' []) (ModelState 6),
          Saved (latest_file [''out''] ''m.pt'' ''_optimizer'') (OptimizerState ()),
          StopInfo 3,
          EpochInfo 6 9.47,
          Saved (latest_file [''out''] ''m.pt'' []) (ModelState 7),
          Saved (latest_file [''out''] ''m.pt'' ''_optimizer'') (OptimizerState ()),
          StopInfo 4,
          Info ''Training done'']"
proof -
  have u: "[0..<7] = [0, 1, 2, 3, 4, 5, 6]"
    by code_simp
  have n: "nat (nb_epochs (example_cfg 7 2 thr)) = 7" for thr by (simp add: example_cfg_def)
  show ?thesis
    by (simp add: do_training_def n u initial_state_def example_improve example_stay)
qed

text \<open>
  C2. In an epoch that ends without an exception, with \<open>epoch_loss env st\<close> the mean loss of
  its pass: when the previous loss minus this loss is strictly greater than \<open>loss_thr\<close>, the
  patience counter becomes zero, the previous loss becomes this loss, the best epoch becomes
  this epoch and the model is written to the file of this epoch; otherwise the patience
  counter grows by exactly one and the previous loss and the best epoch stay. Before the
  first epoch the previous loss is \<open>1e8\<close> and the counter and the best epoch are zero. With
  the threshold 0.01 and the losses 10.0, 9.5, 9.48, 9.47 (as exact numbers), the states
  after one, two, three and four epochs have the patience counters 0, 0, 0, 1 and the best
  epochs 0, 1, 2, 2: epochs 0, 1 and 2 improve, epoch 3 does not.
\<close>

theorem improvement_rule:
  "(epoch_body env cfg f d io e st = Inr st' \<longrightarrow>
      (loss_thr cfg < prv_training_loss st - epoch_loss env st \<longrightarrow>
         patience_counter st' = 0 \<and> prv_training_loss st' = epoch_loss env st
         \<and> best_epoch st' = e
         \<and> (epoch_file d f e, ModelState (model st')) \<in> set (saves (trace st')))
    \<and> (\<not> loss_thr cfg < prv_training_loss st - epoch_loss env st \<longrightarrow>
         patience_counter st' = patience_counter st + 1
         \<and> prv_training_loss st' = prv_training_loss st
         \<and> best_epoch st' = best_epoch st))
   \<and> prv_training_loss (initial_state env m0 fs0 :: ('m, 'o, 'l :: {numeral, minus, ord}) train_state)
        = 100000000
   \<and> patience_counter (initial_state env m0 fs0 :: ('m, 'o, 'l) train_state) = 0
   \<and> best_epoch (initial_state env m0 fs0 :: ('m, 'o, 'l) train_state) = 0
   \<and> map (\<lambda>k. map_sum id (\<lambda>s. (patience_counter s, best_epoch s, prv_training_loss s))
            (epoch_loop (example_env [10.0, 9.5, 9.48, 9.47]) (example_cfg 4 2 0.01) ''m.pt'' [''out''] []
               (initial_state (example_env [10.0, 9.5, 9.48, 9.47]) 0 Map.empty) [0..<k]))
        [1, 2, 3, 4]
      = [Inr (0, 0, 10.0), Inr (0, 1, 9.5), Inr (0, 2, 9.48), Inr (1, 2, 9.48)]"
proof (intro conjI impI)
  assume b: "epoch_body env cfg f d io e st = Inr st'"
  {
    assume i: "loss_thr cfg < prv_training_loss st - epoch_loss env st"
    from improvement_effect [OF b i]
    show "patience_counter st' = 0" "prv_training_loss st' = epoch_loss env st"
      "best_epoch st' = e"
      by simp_all
    from b obtain t2 where
      r: "st' = check_stopping cfg (save_latest f d
             (check_improvement cfg f d e (epoch_loss env st) t2))"
      and p: "prv_training_loss t2 = prv_training_loss st"
      by (rule epoch_body_Inr)
    from i p show "(epoch_file d f e, ModelState (model st')) \<in> set (saves (trace st'))"
      by (simp add: r check_stopping_fields save_latest_fields check_improvement_fields
          saves_append)
  }
  {
    assume i: "\<not> loss_thr cfg < prv_training_loss st - epoch_loss env st"
    from no_improvement_effect [OF b i]
    show "patience_counter st' = patience_counter st + 1"
      "prv_training_loss st' = prv_training_loss st" "best_epoch st' = best_epoch st"
      by simp_all
  }
next
  show "prv_training_loss (initial_state env m0 fs0 :: ('m, 'o, 'l) train_state) = 100000000"
    "patience_counter (initial_state env m0 fs0 :: ('m, 'o, 'l) train_state) = 0"
    "best_epoch (initial_state env m0 fs0 :: ('m, 'o, 'l) train_state) = 0"
    by (simp_all add: initial_state_def)
next
  have u: "[0..<1] = [0]" "[0..<2] = [0, 1]" "[0..<3] = [0, 1, 2]" "[0..<4] = [0, 1, 2, 3]"
    by code_simp+
  show "map (\<lambda>k. map_sum id (\<lambda>s. (patience_counter s, best_epoch s, prv_training_loss s))
            (epoch_loop (example_env [10.0, 9.5, 9.48, 9.47]) (example_cfg 4 2 0.01) ''m.pt'' [''out''] []
               (initial_state (example_env [10.0, 9.5, 9.48, 9.47]) 0 Map.empty) [0..<k]))
        [1, 2, 3, 4]
      = [Inr (0, 0, 10.0), Inr (0, 1, 9.5), Inr (0, 2, 9.48), Inr (1, 2, 9.48)]"
    by (simp add: u initial_state_def example_improve example_stay)
qed

theorem improvement_rule_witness:
  "(\<exists>st'. epoch_body (example_env [10.0, 9.5, 9.48, 9.47]) (example_cfg 4 2 0.01) ''m.pt'' [''out''] [] 0
            (initial_state (example_env [10.0, 9.5, 9.48, 9.47]) 0 Map.empty) = Inr st'
          \<and> patience_counter st' = 0 \<and> prv_training_loss st' = 10.0 \<and> best_epoch st' = 0)
   \<and> (\<exists>st'. epoch_body (example_env [10.0, 9.5, 9.48, 9.47]) (example_cfg 4 2 0.01) ''m.pt'' [''out''] [] 3
            \<lparr>prv_training_loss = 9.48, patience_counter = 0, best_epoch = 2, model = 3,
             optimizer = (), files = Map.empty, trace = []\<rparr> = Inr st'
          \<and> patience_counter st' = 1 \<and> prv_training_loss st' = 9.48 \<and> best_epoch st' = 2)"
proof -
  let ?E = "example_env [10.0, 9.5, 9.48, 9.47]"
  let ?C = "example_cfg 4 2 0.01"
  let ?s0 = "initial_state ?E 0 Map.empty :: (nat, unit, real) train_state"
  let ?s3 = "\<lparr>prv_training_loss = 9.48, patience_counter = 0, best_epoch = 2, model = 3,
             optimizer = (), files = Map.empty, trace = []\<rparr> :: (nat, unit, real) train_state"
  obtain a where a: "epoch_body ?E ?C ''m.pt'' [''out''] [] 0 ?s0 = Inr a"
    by (simp add: initial_state_def example_improve)
  have ia: "loss_thr ?C < prv_training_loss ?s0 - epoch_loss ?E ?s0"
    by (simp add: initial_state_def example_cfg_def example_env_def epoch_loss_def)
  obtain b where b: "epoch_body ?E ?C ''m.pt'' [''out''] [] 3 ?s3 = Inr b"
    by (simp add: example_stay)
  have ib: "\<not> loss_thr ?C < prv_training_loss ?s3 - epoch_loss ?E ?s3"
    by (simp add: example_cfg_def example_env_def epoch_loss_def)
  have la: "epoch_loss ?E ?s0 = 10.0"
    by (simp add: initial_state_def example_env_def epoch_loss_def)
  from improvement_rule [THEN conjunct1, rule_format, OF a, THEN conjunct1, rule_format, OF ia] la
  have "patience_counter a = 0 \<and> prv_training_loss a = 10.0 \<and> best_epoch a = 0"
    by simp
  moreover
  from improvement_rule [THEN conjunct1, rule_format, OF b, THEN conjunct2, rule_format, OF ib]
  have "patience_counter b = 1 \<and> prv_training_loss b = 9.48 \<and> best_epoch b = 2"
    by simp
  ultimately show ?thesis
    using a b by blast
qed

text \<open>
  C7. An epoch that ends without an exception appends to the trace, and the files it writes
  are, in this order: exactly when the epoch improves, the state of the model to
  \<^verbatim>\<open><model_dir>/epoch_<epoch as 05d>_<model_file_name>\<close>; then always the state of the
  model to \<^verbatim>\<open><model_dir>/latest_<model_file_name>\<close> and the state of the optimizer to
  \<^verbatim>\<open><model_dir>/latest_optimizer_<model_file_name>\<close>. The states written are those after
  the pass of the epoch. The tag of the epoch in the first name is the epoch number padded
  with zeros to five digits: a string of decimal digits that denotes the epoch number, of
  length five for every epoch below 100000 and without a leading zero when it is longer.
\<close>

theorem checkpoints_written_each_epoch:
  assumes "epoch_body env cfg f d io e st = Inr st'"
  shows "\<exists>evs. trace st' = trace st @ evs
     \<and> saves evs =
         (if loss_thr cfg < prv_training_loss st - epoch_loss env st
          then [(d @ [''epoch_'' @ fmt_05d e @ ''_'' @ f], ModelState (model st'))] else [])
         @ [(d @ [''latest_'' @ f], ModelState (model st')),
            (d @ [''latest_optimizer_'' @ f], OptimizerState (optimizer st'))]
     \<and> (model st', optimizer st') = snd (module_epoch_passing env (model st) (optimizer st))
     \<and> files st' =
         (if loss_thr cfg < prv_training_loss st - epoch_loss env st
          then (files st)(d @ [''epoch_'' @ fmt_05d e @ ''_'' @ f] \<mapsto> ModelState (model st'))
          else files st)
         (d @ [''latest_'' @ f] \<mapsto> ModelState (model st'),
          d @ [''latest_optimizer_'' @ f] \<mapsto> OptimizerState (optimizer st'))
     \<and> set (fmt_05d e) \<subseteq> set ''0123456789''
     \<and> decimal_value (fmt_05d e) = e
     \<and> 5 \<le> length (fmt_05d e)
     \<and> (e < 100000 \<longrightarrow> length (fmt_05d e) = 5)
     \<and> (5 < length (fmt_05d e) \<longrightarrow> hd (fmt_05d e) \<noteq> CHR ''0'')"
proof -
  from assms obtain t2 where
    r: "st' = check_stopping cfg (save_latest f d
             (check_improvement cfg f d e (epoch_loss env st) t2))"
    and p: "prv_training_loss t2 = prv_training_loss st" "files t2 = files st"
    and m: "(model t2, optimizer t2) = snd (module_epoch_passing env (model st) (optimizer st))"
    and tr: "\<exists>evs. trace t2 = trace st @ evs \<and> saves evs = []"
    by (rule epoch_body_Inr)
  from tr obtain evs where evs: "trace t2 = trace st @ evs" "saves evs = []"
    by blast
  have mo: "model st' = model t2" "optimizer st' = optimizer t2"
    by (simp_all add: r check_stopping_fields save_latest_fields check_improvement_fields)
  have names: "epoch_file d f e = d @ [''epoch_'' @ fmt_05d e @ ''_'' @ f]"
    "latest_file d f [] = d @ [''latest_'' @ f]"
    "latest_file d f ''_optimizer'' = d @ [''latest_optimizer_'' @ f]"
    by (simp_all add: epoch_file_def latest_file_def joinpath_def)
  let ?new = "evs @ (if loss_thr cfg < prv_training_loss st - epoch_loss env st
                     then [Saved (epoch_file d f e) (ModelState (model t2))] else [])
               @ [Saved (latest_file d f []) (ModelState (model t2)),
                  Saved (latest_file d f ''_optimizer'') (OptimizerState (optimizer t2))]
               @ (if patience cfg \<le> patience_counter (check_improvement cfg f d e
                       (epoch_loss env st) t2)
                  then [StopInfo (patience_counter (check_improvement cfg f d e
                       (epoch_loss env st) t2))] else [])"
  have t: "trace st' = trace st @ ?new"
    by (simp add: r check_stopping_def save_latest_fields check_improvement_fields evs p)
  have s: "saves ?new =
         (if loss_thr cfg < prv_training_loss st - epoch_loss env st
          then [(d @ [''epoch_'' @ fmt_05d e @ ''_'' @ f], ModelState (model st'))] else [])
         @ [(d @ [''latest_'' @ f], ModelState (model st')),
            (d @ [''latest_optimizer_'' @ f], OptimizerState (optimizer st'))]"
    by (simp add: saves_append evs mo names)
  have fl: "files st' =
         (if loss_thr cfg < prv_training_loss st - epoch_loss env st
          then (files st)(d @ [''epoch_'' @ fmt_05d e @ ''_'' @ f] \<mapsto> ModelState (model st'))
          else files st)
         (d @ [''latest_'' @ f] \<mapsto> ModelState (model st'),
          d @ [''latest_optimizer_'' @ f] \<mapsto> OptimizerState (optimizer st'))"
    by (simp add: r check_stopping_fields save_latest_fields check_improvement_fields p
        epoch_file_def latest_file_def joinpath_def)
  have pad: "set (fmt_05d e) \<subseteq> set ''0123456789''
     \<and> decimal_value (fmt_05d e) = e
     \<and> 5 \<le> length (fmt_05d e)
     \<and> (e < 100000 \<longrightarrow> length (fmt_05d e) = 5)
     \<and> (5 < length (fmt_05d e) \<longrightarrow> hd (fmt_05d e) \<noteq> CHR ''0'')"
    using fmt_05d_zero_padded [of e] by blast
  have "trace st' = trace st @ ?new
     \<and> saves ?new =
         (if loss_thr cfg < prv_training_loss st - epoch_loss env st
          then [(d @ [''epoch_'' @ fmt_05d e @ ''_'' @ f], ModelState (model st'))] else [])
         @ [(d @ [''latest_'' @ f], ModelState (model st')),
            (d @ [''latest_optimizer_'' @ f], OptimizerState (optimizer st'))]
     \<and> (model st', optimizer st') = snd (module_epoch_passing env (model st) (optimizer st))
     \<and> files st' =
         (if loss_thr cfg < prv_training_loss st - epoch_loss env st
          then (files st)(d @ [''epoch_'' @ fmt_05d e @ ''_'' @ f] \<mapsto> ModelState (model st'))
          else files st)
         (d @ [''latest_'' @ f] \<mapsto> ModelState (model st'),
          d @ [''latest_optimizer_'' @ f] \<mapsto> OptimizerState (optimizer st'))"
    using t s fl m mo by (simp only: simp_thms)
  with pad show ?thesis
    by (intro exI [of _ ?new]) blast
qed

theorem checkpoints_written_each_epoch_witness:
  "(\<exists>st'. epoch_body (example_env [10.0, 9.5, 9.48, 9.47]) (example_cfg 4 2 0.01) ''m.pt'' [''out''] [] 2
            \<lparr>prv_training_loss = 9.5, patience_counter = 0, best_epoch = 1, model = 2,
             optimizer = (), files = Map.empty, trace = []\<rparr> = Inr st'
          \<and> saves (trace st') = [([''out'', ''epoch_00002_m.pt''], ModelState 3),
                                  ([''out'', ''latest_m.pt''], ModelState 3),
                                  ([''out'', ''latest_optimizer_m.pt''], OptimizerState ())])
   \<and> (\<exists>st'. epoch_body (example_env [10.0, 9.5, 9.48, 9.47]) (example_cfg 4 2 0.01) ''m.pt'' [''out''] [] 3
            \<lparr>prv_training_loss = 9.48, patience_counter = 0, best_epoch = 2, model = 3,
             optimizer = (), files = Map.empty, trace = []\<rparr> = Inr st'
          \<and> saves (trace st') = [([''out'', ''latest_m.pt''], ModelState 4),
                                  ([''out'', ''latest_optimizer_m.pt''], OptimizerState ())])"
proof -
  let ?E = "example_env [10.0, 9.5, 9.48, 9.47]"
  let ?C = "example_cfg 4 2 0.01"
  let ?s2 = "\<lparr>prv_training_loss = 9.5, patience_counter = 0, best_epoch = 1, model = 2,
             optimizer = (), files = Map.empty, trace = []\<rparr> :: (nat, unit, real) train_state"
  let ?s3 = "\<lparr>prv_training_loss = 9.48, patience_counter = 0, best_epoch = 2, model = 3,
             optimizer = (), files = Map.empty, trace = []\<rparr> :: (nat, unit, real) train_state"
  have f2: "fmt_05d 2 = ''00002''" by code_simp
  obtain a where a: "epoch_body ?E ?C ''m.pt'' [''out''] [] 2 ?s2 = Inr a"
    by (simp add: example_improve)
  have ia: "loss_thr ?C < prv_training_loss ?s2 - epoch_loss ?E ?s2"
    by (simp add: example_cfg_def example_env_def epoch_loss_def)
  have ma: "snd (module_epoch_passing ?E (model ?s2) (optimizer ?s2)) = (3, ())"
    by (simp add: example_env_def)
  obtain b where b: "epoch_body ?E ?C ''m.pt'' [''out''] [] 3 ?s3 = Inr b"
    by (simp add: example_stay)
  have ib: "\<not> loss_thr ?C < prv_training_loss ?s3 - epoch_loss ?E ?s3"
    by (simp add: example_cfg_def example_env_def epoch_loss_def)
  have mb: "snd (module_epoch_passing ?E (model ?s3) (optimizer ?s3)) = (4, ())"
    by (simp add: example_env_def)
  from checkpoints_written_each_epoch [OF a] ia ma f2
  have "saves (trace a) = [([''out'', ''epoch_00002_m.pt''], ModelState 3),
                           ([''out'', ''latest_m.pt''], ModelState 3),
                           ([''out'', ''latest_optimizer_m.pt''], OptimizerState ())]"
    by auto
  moreover
  from checkpoints_written_each_epoch [OF b] ib mb
  have "saves (trace b) = [([''out'', ''latest_m.pt''], ModelState 4),
                           ([''out'', ''latest_optimizer_m.pt''], OptimizerState ())]"
    by auto
  ultimately show ?thesis
    using a b by blast
qed

text \<open>
  C8. The claim as stated covers every return, and fails when no epoch of the run improved:
  \<open>best_epoch\<close> is then still 0 and the function loads whatever file of epoch 0 the model
  directory held before the run. In the run below both epochs have the loss 2e8, which is
  not below the initial 1e8, no file of an epoch is written, the passes leave the model in
  the states 1 and 2, and the function returns with the state 42 of the old file.
\<close>

theorem best_epoch_restored_counterexample:
  "map_sum id model
     (do_training (example_env [200000000, 200000000]) (example_cfg 2 5 0.01) ''m.pt'' [''out'']
        [] 0 stale_files) = Inr 42
   \<and> map_sum id best_epoch
     (do_training (example_env [200000000, 200000000]) (example_cfg 2 5 0.01) ''m.pt'' [''out'']
        [] 0 stale_files) = Inr 0
   \<and> map_sum id trace
     (do_training (example_env [200000000, 200000000]) (example_cfg 2 5 0.01) ''m.pt'' [''out'']
        [] 0 stale_files)
     = Inr [Info ''Getting training data'', Info ''Done'', Info ''Starting training'',
            EpochInfo 0 200000000,
            Saved (latest_file [''out''] ''m.pt'' []) (ModelState 1),
            Saved (latest_file [''out''] ''m.pt'' ''_optimizer'') (OptimizerState ()),
            EpochInfo 1 200000000,
            Saved (latest_file [''out''] ''m.pt'' []) (ModelState 2),
            Saved (latest_file [''out''] ''m.pt'' ''_optimizer'') (OptimizerState ()),
            Info ''Training done'']"
proof -
  have u: "[0..<2] = [0, 1]"
    by code_simp
  have n: "nat (nb_epochs (example_cfg 2 5 thr)) = 2" for thr by (simp add: example_cfg_def)
  show ?thesis
    by (simp add: do_training_def n u initial_state_def example_improve example_stay
        stale_files_def)
qed

text \<open>
  C8, as the code has it. When the function returns, the state of the model is the content
  of the file of \<open>best_epoch\<close>. If some epoch improved, with \<open>e\<close> the last one that did, then
  \<open>best_epoch\<close> is \<open>e\<close> and the model has the state it had at the end of epoch \<open>e\<close>,
  whatever the later passes did to it. If no epoch improved, \<open>best_epoch\<close> is 0 and the
  model has the state of the file of epoch 0 that was there before the run. (The loop always
  runs all its epochs, see C1.)
\<close>

theorem best_epoch_restored:
  assumes "do_training env cfg f d io m0 fs0 = Inr fin"
  shows "files fin (epoch_file d f (best_epoch fin)) = Some (ModelState (model fin))
     \<and> (\<forall>e s s'. e < nat (nb_epochs cfg)
          \<and> epoch_loop env cfg f d io (initial_state env m0 fs0) [0..<e] = Inr s
          \<and> epoch_body env cfg f d io e s = Inr s'
          \<and> loss_thr cfg < prv_training_loss s - epoch_loss env s
          \<and> (\<forall>e' t. e < e' \<and> e' < nat (nb_epochs cfg)
                \<and> epoch_loop env cfg f d io (initial_state env m0 fs0) [0..<e'] = Inr t
                \<longrightarrow> \<not> loss_thr cfg < prv_training_loss t - epoch_loss env t)
          \<longrightarrow> best_epoch fin = e \<and> model fin = model s')
     \<and> ((\<forall>e' t. e' < nat (nb_epochs cfg)
            \<and> epoch_loop env cfg f d io (initial_state env m0 fs0) [0..<e'] = Inr t
            \<longrightarrow> \<not> loss_thr cfg < prv_training_loss t - epoch_loss env t)
          \<longrightarrow> best_epoch fin = 0
              \<and> fs0 (epoch_file d f 0) = Some (ModelState (model fin)))"
proof (intro conjI allI impI)
  from assms show "files fin (epoch_file d f (best_epoch fin)) = Some (ModelState (model fin))"
    by (auto simp: do_training_def Let_def split: sum.splits option.splits state_dict.splits)
next
  let ?n = "nat (nb_epochs cfg)"
  let ?st0 = "initial_state env m0 fs0"
  assume none: "\<forall>e' t. e' < ?n \<and> epoch_loop env cfg f d io ?st0 [0..<e'] = Inr t
            \<longrightarrow> \<not> loss_thr cfg < prv_training_loss t - epoch_loss env t"
  from assms obtain stn m where
    ln: "epoch_loop env cfg f d io ?st0 [0..<?n] = Inr stn"
    and fm: "files stn (epoch_file d f (best_epoch stn)) = Some (ModelState m)"
    and fin: "best_epoch fin = best_epoch stn" "model fin = m"
    by (auto simp: do_training_def Let_def split: sum.splits option.splits state_dict.splits)
  from ln have tl: "epoch_loop env cfg f d io ?st0 [0..<0 + ?n] = Inr stn"
    by simp
  have "best_epoch stn = best_epoch ?st0
        \<and> files stn (epoch_file d f 0) = files ?st0 (epoch_file d f 0)"
  proof (rule tail_without_improvement [OF tl])
    fix e' u
    assume "e' < 0 + ?n" and "epoch_loop env cfg f d io ?st0 [0..<e'] = Inr u"
    with none show "\<not> loss_thr cfg < prv_training_loss u - epoch_loss env u"
      by simp
  qed
  then have "best_epoch stn = 0" "files stn (epoch_file d f 0) = fs0 (epoch_file d f 0)"
    by (simp_all add: initial_state_def)
  with fm fin show "best_epoch fin = 0" "fs0 (epoch_file d f 0) = Some (ModelState (model fin))"
    by simp_all
next
  fix e s s'
  let ?n = "nat (nb_epochs cfg)"
  let ?st0 = "initial_state env m0 fs0"
  assume h: "e < ?n
          \<and> epoch_loop env cfg f d io ?st0 [0..<e] = Inr s
          \<and> epoch_body env cfg f d io e s = Inr s'
          \<and> loss_thr cfg < prv_training_loss s - epoch_loss env s
          \<and> (\<forall>e' t. e < e' \<and> e' < ?n
                \<and> epoch_loop env cfg f d io ?st0 [0..<e'] = Inr t
                \<longrightarrow> \<not> loss_thr cfg < prv_training_loss t - epoch_loss env t)"
  then have en: "e < ?n" and ls: "epoch_loop env cfg f d io ?st0 [0..<e] = Inr s"
    and bs: "epoch_body env cfg f d io e s = Inr s'"
    and imp: "loss_thr cfg < prv_training_loss s - epoch_loss env s"
    and later: "\<And>e' t. e < e' \<Longrightarrow> e' < ?n
                \<Longrightarrow> epoch_loop env cfg f d io ?st0 [0..<e'] = Inr t
                \<Longrightarrow> \<not> loss_thr cfg < prv_training_loss t - epoch_loss env t"
    by blast+
  from assms obtain stn m where
    ln: "epoch_loop env cfg f d io ?st0 [0..<?n] = Inr stn"
    and fm: "files stn (epoch_file d f (best_epoch stn)) = Some (ModelState m)"
    and fin: "best_epoch fin = best_epoch stn" "model fin = m"
    by (auto simp: do_training_def Let_def split: sum.splits option.splits state_dict.splits)
  have pre: "[0..<e'] = [0..<e] @ e # [Suc e..<e']" if "e < e'" for e'
    using that by (metis upt_conv_Cons less_imp_le_nat upt_add_eq_append le_add_diff_inverse zero_le)
  have step: "epoch_loop env cfg f d io ?st0 [0..<e'] = epoch_loop env cfg f d io s' [Suc e..<e']"
    if "e < e'" for e'
    by (simp add: pre [OF that] epoch_loop_append ls bs)
  obtain k where k: "?n = Suc e + k"
    using en by (metis less_iff_Suc_add add_Suc)
  have tl: "epoch_loop env cfg f d io s' [Suc e..<Suc e + k] = Inr stn"
    using step [OF en] ln by (simp add: k)
  have "best_epoch stn = best_epoch s'
        \<and> files stn (epoch_file d f e) = files s' (epoch_file d f e)"
  proof (rule tail_without_improvement [OF tl])
    fix e' u
    assume a: "Suc e \<le> e'" "e' < Suc e + k"
      and u: "epoch_loop env cfg f d io s' [Suc e..<e'] = Inr u"
    from a have "e < e'" "e' < ?n" by (simp_all add: k)
    moreover from step [OF \<open>e < e'\<close>] u
    have "epoch_loop env cfg f d io ?st0 [0..<e'] = Inr u" by simp
    ultimately show "\<not> loss_thr cfg < prv_training_loss u - epoch_loss env u"
      by (rule later)
  qed
  with improvement_effect(1,2) [OF bs imp] fm fin
  show "best_epoch fin = e" "model fin = model s'"
    by simp_all
qed

theorem best_epoch_restored_witness:
  "(\<exists>fin. do_training (example_env [10.0, 9.5, 9.48, 9.47]) (example_cfg 4 2 0.01) ''m.pt'' [''out''] []
            0 Map.empty = Inr fin
      \<and> files fin (epoch_file [''out''] ''m.pt'' (best_epoch fin)) = Some (ModelState (model fin))
      \<and> best_epoch fin = 2 \<and> model fin = 3)
   \<and> (\<exists>fin. do_training (example_env [200000000, 200000000]) (example_cfg 2 5 0.01) ''m.pt''
            [''out''] [] 0 stale_files = Inr fin
      \<and> best_epoch fin = 0
      \<and> stale_files (epoch_file [''out''] ''m.pt'' 0) = Some (ModelState (model fin)))"
proof -
  let ?E = "example_env [10.0, 9.5, 9.48, 9.47]"
  let ?C = "example_cfg 4 2 0.01"
  let ?s0 = "initial_state ?E 0 Map.empty :: (nat, unit, real) train_state"
  let ?loop = "epoch_loop ?E ?C ''m.pt'' [''out''] [] ?s0"
  have u: "[0..<1] = [0]" "[0..<2] = [0, 1]" "[0..<3] = [0, 1, 2]" "[0..<4] = [0, 1, 2, 3]"
    by code_simp+
  have n: "nat (nb_epochs (example_cfg 4 2 thr)) = 4" for thr by (simp add: example_cfg_def)
  obtain fin where fin: "do_training ?E ?C ''m.pt'' [''out''] [] 0 Map.empty = Inr fin"
    by (simp add: do_training_def n u initial_state_def example_improve example_stay)
  have v2: "map_sum id (\<lambda>s. (prv_training_loss s, model s)) (?loop [0..<2]) = Inr (9.5, 2)"
    by (simp add: u initial_state_def example_improve example_stay)
  have v3: "map_sum id (\<lambda>s. (prv_training_loss s, model s)) (?loop [0..<3]) = Inr (9.48, 3)"
    by (simp add: u initial_state_def example_improve example_stay)
  from v3 obtain s' where s': "?loop [0..<3] = Inr s'"
    and ps': "prv_training_loss s' = 9.48" "model s' = 3"
    by (cases "?loop [0..<3]") auto
  have "[0..<3] = [0..<2] @ [2]" by code_simp
  with s' have "?loop ([0..<2] @ [2]) = Inr s'" by simp
  then obtain s where s: "?loop [0..<2] = Inr s"
    and bs: "epoch_body ?E ?C ''m.pt'' [''out''] [] 2 s = Inr s'"
    by (rule epoch_loop_snoc_Inr)
  from v2 s have ps: "prv_training_loss s = 9.5" "model s = 2"
    by simp_all
  have imp: "loss_thr ?C < prv_training_loss s - epoch_loss ?E s"
    by (simp add: ps example_cfg_def example_env_def epoch_loss_def)
  have later: "\<forall>e' t. 2 < e' \<and> e' < nat (nb_epochs ?C) \<and> ?loop [0..<e'] = Inr t
                \<longrightarrow> \<not> loss_thr ?C < prv_training_loss t - epoch_loss ?E t"
  proof (intro allI impI)
    fix e' t
    assume h: "2 < e' \<and> e' < nat (nb_epochs ?C) \<and> ?loop [0..<e'] = Inr t"
    then have "e' = 3" by (simp add: n)
    with h s' ps' have "prv_training_loss t = 9.48" "model t = 3" by simp_all
    then show "\<not> loss_thr ?C < prv_training_loss t - epoch_loss ?E t"
      by (simp add: example_cfg_def example_env_def epoch_loss_def)
  qed
  have e: "(2::nat) < nat (nb_epochs ?C)" by (simp add: n)
  note t = best_epoch_restored [OF fin]
  from t [THEN conjunct2, THEN conjunct1, rule_format, of 2 s s'] e s bs imp later
  have "best_epoch fin = 2 \<and> model fin = model s'"
    by blast
  with t [THEN conjunct1] ps' fin
  have first: "\<exists>fin. do_training ?E ?C ''m.pt'' [''out''] [] 0 Map.empty = Inr fin
      \<and> files fin (epoch_file [''out''] ''m.pt'' (best_epoch fin)) = Some (ModelState (model fin))
      \<and> best_epoch fin = 2 \<and> model fin = 3"
    by auto
  let ?F = "example_env [200000000, 200000000]"
  let ?D = "example_cfg 2 5 0.01"
  let ?t0 = "initial_state ?F 0 stale_files :: (nat, unit, real) train_state"
  let ?loop2 = "epoch_loop ?F ?D ''m.pt'' [''out''] [] ?t0"
  have m: "nat (nb_epochs (example_cfg 2 5 thr)) = 2" for thr by (simp add: example_cfg_def)
  obtain g where g: "do_training ?F ?D ''m.pt'' [''out''] [] 0 stale_files = Inr g"
    by (simp add: do_training_def m u initial_state_def example_improve example_stay
        stale_files_def)
  have w0: "map_sum id (\<lambda>s. (prv_training_loss s, model s)) (?loop2 [0..<0]) = Inr (100000000, 0)"
    by (simp add: initial_state_def)
  have w1: "map_sum id (\<lambda>s. (prv_training_loss s, model s)) (?loop2 [0..<1]) = Inr (100000000, 1)"
    by (simp add: u initial_state_def example_improve example_stay)
  have none: "\<forall>e' t. e' < nat (nb_epochs ?D) \<and> ?loop2 [0..<e'] = Inr t
                \<longrightarrow> \<not> loss_thr ?D < prv_training_loss t - epoch_loss ?F t"
  proof (intro allI impI)
    fix e' t
    assume h: "e' < nat (nb_epochs ?D) \<and> ?loop2 [0..<e'] = Inr t"
    then have "e' = 0 \<or> e' = 1" by (auto simp: m)
    with h w0 w1 have "prv_training_loss t = 100000000" "model t = 0 \<or> model t = 1"
      by auto
    then show "\<not> loss_thr ?D < prv_training_loss t - epoch_loss ?F t"
      by (auto simp: example_cfg_def example_env_def epoch_loss_def)
  qed
  from best_epoch_restored [OF g, THEN conjunct2, THEN conjunct2, THEN mp, OF none] g
  have second: "\<exists>fin. do_training ?F ?D ''m.pt'' [''out''] [] 0 stale_files = Inr fin
      \<and> best_epoch fin = 0
      \<and> stale_files (epoch_file [''out''] ''m.pt'' 0) = Some (ModelState (model fin))"
    by blast
  from first second show ?thesis
    by (rule conjI)
qed

end
